theory Spec2Isabelle
  imports Main "HOL-Library.Word"
begin

unbundle bit_operations_syntax

section \<open>What SD.cpp takes from its headers\<close>

text \<open>
  SD.cpp is a wrapper: every filesystem action is a call into the FAT driver declared in
  ff.h, and the two classes it implements are declared in STM32SD.h. Neither header is
  part of the sources at hand, so the driver is a parameter of the model. Only the shape
  of its data is fixed here: the result enumeration, and the three structures the
  wrapper reads fields of.
\<close>

datatype FRESULT =
    FR_OK | FR_DISK_ERR | FR_INT_ERR | FR_NOT_READY | FR_NO_FILE | FR_NO_PATH
  | FR_INVALID_NAME | FR_DENIED | FR_EXIST | FR_INVALID_OBJECT | FR_WRITE_PROTECTED
  | FR_INVALID_DRIVE | FR_NOT_ENABLED | FR_NO_FILESYSTEM | FR_MKFS_ABORTED | FR_TIMEOUT
  | FR_LOCKED | FR_NOT_ENOUGH_CORE | FR_TOO_MANY_OPEN_FILES | FR_INVALID_PARAMETER

text \<open>
  \<open>FIL\<close>: the wrapper tests \<open>obj.fs\<close> against 0 and reads the size and the read/write
  pointer through the macros \<open>f_size\<close> and \<open>f_tell\<close>. \<open>fil_clust\<close> stands for what else
  the driver keeps in the object.
\<close>

record FIL =
  fil_fs :: nat
  objsize :: "32 word"
  fptr :: "32 word"
  fil_clust :: nat

text \<open>\<open>DIR\<close>: the wrapper tests \<open>obj.fs\<close> against 0; the rest belongs to the driver.\<close>

record DIR =
  dir_fs :: nat
  dir_clust :: nat
  dptr :: nat

record FILINFO =
  fname :: string
  fattrib :: "8 word"
  fsize :: "32 word"

text \<open>
  The driver over a volume state \<open>'v\<close>. A function that takes a pointer to a \<open>FIL\<close> or
  a \<open>DIR\<close> in C takes the object's contents here and returns the contents it leaves
  behind. \<open>f_read\<close> returns the bytes it transferred (their number is \<open>*br\<close>).
  \<open>FILE_WRITE\<close> (STM32SD.h), \<open>FA_CREATE_ALWAYS\<close> (ff.h) and the root path of
  \<open>_fatFs.getRoot()\<close> are constants of the same missing headers.
\<close>

record 'v ext =
  FILE_WRITE :: "8 word"
  FA_CREATE_ALWAYS :: "8 word"
  getRoot :: string
  f_stat :: "string \<Rightarrow> 'v \<Rightarrow> FRESULT \<times> FILINFO \<times> 'v"
  f_mkdir :: "string \<Rightarrow> 'v \<Rightarrow> FRESULT \<times> 'v"
  f_open :: "FIL \<Rightarrow> string \<Rightarrow> 8 word \<Rightarrow> 'v \<Rightarrow> FRESULT \<times> FIL \<times> 'v"
  f_opendir :: "DIR \<Rightarrow> string \<Rightarrow> 'v \<Rightarrow> FRESULT \<times> DIR \<times> 'v"
  f_readdir :: "DIR \<Rightarrow> 'v \<Rightarrow> FRESULT \<times> FILINFO \<times> DIR \<times> 'v"
  f_closedir :: "DIR \<Rightarrow> 'v \<Rightarrow> FRESULT \<times> DIR \<times> 'v"
  f_read :: "FIL \<Rightarrow> nat \<Rightarrow> 'v \<Rightarrow> FRESULT \<times> 8 word list \<times> FIL \<times> 'v"
  f_lseek :: "FIL \<Rightarrow> 32 word \<Rightarrow> 'v \<Rightarrow> FRESULT \<times> FIL \<times> 'v"
  f_sync :: "FIL \<Rightarrow> 'v \<Rightarrow> FRESULT \<times> FIL \<times> 'v"
  f_close :: "FIL \<Rightarrow> 'v \<Rightarrow> FRESULT \<times> FIL \<times> 'v"

section \<open>The machine: heap, driver state, trace\<close>

text \<open>
  A pointer is \<open>nat option\<close>, \<open>None\<close> being \<open>NULL\<close>. The heap maps the addresses of the
  live blocks to their contents. \<open>malloc\<close> hands out \<open>brk\<close> and never reuses an address;
  whether it fails is read from \<open>oom\<close>, the outcomes of the coming calls (\<open>True\<close>: this
  call returns \<open>NULL\<close>; an empty list: no failure). \<open>junk_*\<close> is what uninitialised
  storage happens to hold. \<open>calls\<close> records each driver call with what it reported.
\<close>

datatype obj = Str string | Fil FIL

datatype call =
    Call_stat string FRESULT
  | Call_mkdir string FRESULT
  | Call_open string "8 word" FRESULT
  | Call_opendir string FRESULT
  | Call_readdir FRESULT string
  | Call_closedir FRESULT
  | Call_read nat FRESULT nat
  | Call_lseek "32 word" FRESULT
  | Call_sync FRESULT
  | Call_close FRESULT

record 'v world =
  heap :: "nat \<rightharpoonup> obj"
  brk :: nat
  oom :: "bool list"
  junk_byte :: "8 word"
  junk_fil :: FIL
  junk_dir :: DIR
  vol :: 'v
  calls :: "call list"

text \<open>
  How a run can stop without returning: \<open>Error_Handler()\<close> does not return, and a
  use of a pointer that is null or no longer live has no defined behaviour.
\<close>

datatype stop = Error_Handler | Undefined_Behaviour

definition malloc :: "obj \<Rightarrow> 'v world \<Rightarrow> nat option \<times> 'v world" where
  "malloc init w =
     (case oom w of
        True # rest \<Rightarrow> (None, w\<lparr>oom := rest\<rparr>)
      | _ \<Rightarrow> (Some (brk w),
              w\<lparr>heap := (heap w)(brk w \<mapsto> init), brk := Suc (brk w), oom := tl (oom w)\<rparr>))"

definition free :: "nat option \<Rightarrow> 'v world \<Rightarrow> stop + 'v world" where
  "free p w =
     (case p of
        None \<Rightarrow> Inr w
      | Some a \<Rightarrow>
          (case heap w a of
             None \<Rightarrow> Inl Undefined_Behaviour
           | Some _ \<Rightarrow> Inr (w\<lparr>heap := (heap w)(a := None)\<rparr>)))"

definition the_str :: "nat option \<Rightarrow> 'v world \<Rightarrow> stop + string" where
  "the_str p w =
     (case p of
        None \<Rightarrow> Inl Undefined_Behaviour
      | Some a \<Rightarrow> (case heap w a of Some (Str s) \<Rightarrow> Inr s | _ \<Rightarrow> Inl Undefined_Behaviour))"

definition the_fil :: "nat option \<Rightarrow> 'v world \<Rightarrow> stop + FIL" where
  "the_fil p w =
     (case p of
        None \<Rightarrow> Inl Undefined_Behaviour
      | Some a \<Rightarrow> (case heap w a of Some (Fil f) \<Rightarrow> Inr f | _ \<Rightarrow> Inl Undefined_Behaviour))"

definition put :: "nat option \<Rightarrow> obj \<Rightarrow> 'v world \<Rightarrow> stop + 'v world" where
  "put p x w =
     (case p of
        None \<Rightarrow> Inl Undefined_Behaviour
      | Some a \<Rightarrow>
          (case heap w a of
             None \<Rightarrow> Inl Undefined_Behaviour
           | Some _ \<Rightarrow> Inr (w\<lparr>heap := (heap w)(a \<mapsto> x)\<rparr>)))"

definition logged :: "call \<Rightarrow> 'v \<Rightarrow> 'v world \<Rightarrow> 'v world" where
  "logged c v w = w\<lparr>vol := v, calls := calls w @ [c]\<rparr>"

section \<open>SDClass\<close>

text \<open>\<open>SDClass::exists\<close>\<close>

definition SDClass_exists :: "'v ext \<Rightarrow> string \<Rightarrow> 'v world \<Rightarrow> bool \<times> 'v world" where
  "SDClass_exists e filepath w =
     (case f_stat e filepath (vol w) of
        (r, fno, v) \<Rightarrow> (if r \<noteq> FR_OK then False else True, logged (Call_stat filepath r) v w))"

text \<open>\<open>SDClass::mkdir\<close>\<close>

definition SDClass_mkdir :: "'v ext \<Rightarrow> string \<Rightarrow> 'v world \<Rightarrow> bool \<times> 'v world" where
  "SDClass_mkdir e filepath w =
     (case f_mkdir e filepath (vol w) of
        (r, v) \<Rightarrow>
          (if (r \<noteq> FR_OK) \<and> (r \<noteq> FR_EXIST) then False else True,
           logged (Call_mkdir filepath r) v w))"

text \<open>Sequencing of steps that may stop.\<close>

definition andThen :: "stop + 'a \<Rightarrow> ('a \<Rightarrow> stop + 'b) \<Rightarrow> stop + 'b" where
  "andThen m k = (case m of Inl s \<Rightarrow> Inl s | Inr x \<Rightarrow> k x)"

text \<open>
  Driver calls on a \<open>FIL *\<close>: the object is read from the heap, handed to the driver,
  and what the driver leaves is written back.
\<close>

definition call_f_open ::
  "'v ext \<Rightarrow> nat option \<Rightarrow> string \<Rightarrow> 8 word \<Rightarrow> 'v world \<Rightarrow> stop + (FRESULT \<times> 'v world)" where
  "call_f_open e fp path mode w =
     andThen (the_fil fp w) (\<lambda>fil.
       case f_open e fil path mode (vol w) of
         (r, fil', v) \<Rightarrow>
           andThen (put fp (Fil fil') (logged (Call_open path mode r) v w)) (\<lambda>w'. Inr (r, w')))"

definition call_f_read ::
  "'v ext \<Rightarrow> nat option \<Rightarrow> nat \<Rightarrow> 'v world \<Rightarrow> stop + (FRESULT \<times> 8 word list \<times> 'v world)" where
  "call_f_read e fp btr w =
     andThen (the_fil fp w) (\<lambda>fil.
       case f_read e fil btr (vol w) of
         (r, bytes, fil', v) \<Rightarrow>
           if length bytes > btr then Inl Undefined_Behaviour
           else andThen (put fp (Fil fil') (logged (Call_read btr r (length bytes)) v w))
                  (\<lambda>w'. Inr (r, bytes, w')))"

definition call_f_lseek ::
  "'v ext \<Rightarrow> nat option \<Rightarrow> 32 word \<Rightarrow> 'v world \<Rightarrow> stop + (FRESULT \<times> 'v world)" where
  "call_f_lseek e fp ofs w =
     andThen (the_fil fp w) (\<lambda>fil.
       case f_lseek e fil ofs (vol w) of
         (r, fil', v) \<Rightarrow>
           andThen (put fp (Fil fil') (logged (Call_lseek ofs r) v w)) (\<lambda>w'. Inr (r, w')))"

definition call_f_sync :: "'v ext \<Rightarrow> nat option \<Rightarrow> 'v world \<Rightarrow> stop + (FRESULT \<times> 'v world)" where
  "call_f_sync e fp w =
     andThen (the_fil fp w) (\<lambda>fil.
       case f_sync e fil (vol w) of
         (r, fil', v) \<Rightarrow>
           andThen (put fp (Fil fil') (logged (Call_sync r) v w)) (\<lambda>w'. Inr (r, w')))"

definition call_f_close :: "'v ext \<Rightarrow> nat option \<Rightarrow> 'v world \<Rightarrow> stop + (FRESULT \<times> 'v world)" where
  "call_f_close e fp w =
     andThen (the_fil fp w) (\<lambda>fil.
       case f_close e fil (vol w) of
         (r, fil', v) \<Rightarrow>
           andThen (put fp (Fil fil') (logged (Call_close r) v w)) (\<lambda>w'. Inr (r, w')))"

section \<open>File\<close>

text \<open>
  The members of \<open>File\<close>: \<open>_name\<close> and \<open>_fil\<close> are pointers into the heap, \<open>_dir\<close> is
  embedded, \<open>_res\<close> is the last driver result.
\<close>

record File =
  m_name :: "nat option"
  m_fil :: "nat option"
  m_dir :: DIR
  m_res :: FRESULT

text \<open>
  \<open>File::File(FRESULT result)\<close>. The constructor assigns three members; \<open>_dir\<close> is what
  its declaration in the header (not at hand) makes it, so it is taken as indeterminate.
\<close>

definition File_ctor :: "FRESULT \<Rightarrow> 'v world \<Rightarrow> File" where
  "File_ctor result w = \<lparr>m_name = None, m_fil = None, m_dir = junk_dir w, m_res = result\<rparr>"

text \<open>\<open>SDClass::open\<close>, in the configuration \<open>_FATFS == 68300\<close>.\<close>

definition SDClass_open ::
  "'v ext \<Rightarrow> string \<Rightarrow> 8 word \<Rightarrow> 'v world \<Rightarrow> stop + (File \<times> 'v world)" where
  "SDClass_open e filepath mode0 w0 =
     (let file = File_ctor FR_OK w0 in
      case malloc (Str []) w0 of
        (np, w1) \<Rightarrow>
          let file = file\<lparr>m_name := np\<rparr> in
          if m_name file = None then Inl Error_Handler
          else
            andThen (put (m_name file) (Str filepath) w1) (\<lambda>w2.
            case malloc (Fil (junk_fil w2)) w2 of
              (fp, w3) \<Rightarrow>
                let file = file\<lparr>m_fil := fp\<rparr> in
                if m_fil file = None then Inl Error_Handler
                else
                  andThen (the_fil (m_fil file) w3) (\<lambda>fil.
                  andThen (put (m_fil file) (Fil (fil\<lparr>fil_fs := 0\<rparr>)) w3) (\<lambda>w4.
                  let file = file\<lparr>m_dir := (m_dir file)\<lparr>dir_fs := 0\<rparr>\<rparr> in
                  case (if mode0 = FILE_WRITE e
                        then (case SDClass_exists e filepath w4 of
                                (ex, w) \<Rightarrow> (if \<not> ex then mode0 OR FA_CREATE_ALWAYS e else mode0, w))
                        else (mode0, w4)) of
                    (mode, w5) \<Rightarrow>
                      andThen (call_f_open e (m_fil file) filepath mode w5) (\<lambda>(r, w6).
                      let file = file\<lparr>m_res := r\<rparr> in
                      if m_res file \<noteq> FR_OK then
                        andThen (free (m_fil file) w6) (\<lambda>w7.
                        let file = file\<lparr>m_fil := None\<rparr> in
                        case f_opendir e (m_dir file) filepath (vol w7) of
                          (r2, d, v) \<Rightarrow>
                            let w8 = logged (Call_opendir filepath r2) v w7;
                                file = file\<lparr>m_dir := d, m_res := r2\<rparr>
                            in if m_res file \<noteq> FR_OK then
                                 andThen (free (m_name file) w8) (\<lambda>w9.
                                 Inr (file\<lparr>m_name := None\<rparr>, w9))
                               else Inr (file, w8))
                      else Inr (file, w6))))))"

text \<open>\<open>SDClass::openRoot\<close>; the default mode of \<open>open\<close> is \<open>FA_READ\<close>, a parameter here.\<close>

definition SDClass_openRoot :: "'v ext \<Rightarrow> 8 word \<Rightarrow> 'v world \<Rightarrow> stop + (File \<times> 'v world)" where
  "SDClass_openRoot e fa_read w = SDClass_open e (getRoot e) fa_read w"

text \<open>\<open>File::operator bool\<close>, with the short-circuit order of the source.\<close>

definition File_bool :: "File \<Rightarrow> 'v world \<Rightarrow> stop + bool" where
  "File_bool f w =
     (if m_name f = None then Inr False
      else if m_fil f = None \<and> dir_fs (m_dir f) = 0 then Inr False
      else if m_fil f \<noteq> None then
        andThen (the_fil (m_fil f) w) (\<lambda>fil. Inr (\<not> (fil_fs fil = 0 \<and> dir_fs (m_dir f) = 0)))
      else Inr True)"

text \<open>
  \<open>File::read()\<close>. \<open>data\<close> is an uninitialised \<open>int8_t\<close> that the driver overwrites with
  the byte it transfers, if it transfers one; it is returned converted to \<open>int\<close>.
\<close>

definition File_read :: "'v ext \<Rightarrow> File \<Rightarrow> 'v world \<Rightarrow> stop + (int \<times> 'v world)" where
  "File_read e f w =
     andThen (call_f_read e (m_fil f) 1 w) (\<lambda>(r, bytes, w').
       let data = (case bytes of [] \<Rightarrow> junk_byte w | b # _ \<Rightarrow> b)
       in Inr (if r = FR_OK then sint data else - 1, w'))"

text \<open>\<open>File::close\<close>\<close>

definition File_close :: "'v ext \<Rightarrow> File \<Rightarrow> 'v world \<Rightarrow> stop + (File \<times> 'v world)" where
  "File_close e f w =
     (if m_name f \<noteq> None then
        andThen
          (if m_fil f \<noteq> None then
             andThen (the_fil (m_fil f) w) (\<lambda>fil.
             andThen
               (if fil_fs fil \<noteq> 0 then
                  andThen (call_f_sync e (m_fil f) w) (\<lambda>(r1, w1).
                  andThen (call_f_close e (m_fil f) w1) (\<lambda>(r2, w2). Inr w2))
                else Inr w) (\<lambda>w3.
             andThen (free (m_fil f) w3) (\<lambda>w4. Inr (f\<lparr>m_fil := None\<rparr>, w4))))
           else Inr (f, w)) (\<lambda>(f1, w5).
        case (if dir_fs (m_dir f1) \<noteq> 0
              then (case f_closedir e (m_dir f1) (vol w5) of
                      (r, d, v) \<Rightarrow> (f1\<lparr>m_dir := d\<rparr>, logged (Call_closedir r) v w5))
              else (f1, w5)) of
          (f2, w6) \<Rightarrow>
            andThen (free (m_name f2) w6) (\<lambda>w7. Inr (f2\<lparr>m_name := None\<rparr>, w7)))
      else Inr (f, w))"

text \<open>\<open>File::position\<close> and \<open>File::size\<close>: the macros \<open>f_tell\<close> and \<open>f_size\<close> read the object.\<close>

definition File_position :: "File \<Rightarrow> 'v world \<Rightarrow> stop + 32 word" where
  "File_position f w = andThen (the_fil (m_fil f) w) (\<lambda>fil. Inr (fptr fil))"

definition File_size :: "File \<Rightarrow> 'v world \<Rightarrow> stop + 32 word" where
  "File_size f w = andThen (the_fil (m_fil f) w) (\<lambda>fil. Inr (objsize fil))"

text \<open>\<open>File::seek\<close>\<close>

definition File_seek :: "'v ext \<Rightarrow> File \<Rightarrow> 32 word \<Rightarrow> 'v world \<Rightarrow> stop + (bool \<times> 'v world)" where
  "File_seek e f pos w =
     andThen (File_size f w) (\<lambda>sz.
       if pos \<le> sz then
         andThen (call_f_lseek e (m_fil f) pos w) (\<lambda>(r, w').
           Inr (if r \<noteq> FR_OK then False else True, w'))
       else Inr (False, w))"

text \<open>
  \<open>File::available\<close>: the subtraction and the comparison are in \<open>uint32_t\<close>, the result
  is converted to \<open>int\<close>.
\<close>

definition File_available :: "File \<Rightarrow> 'v world \<Rightarrow> stop + int" where
  "File_available f w =
     andThen (File_size f w) (\<lambda>sz.
     andThen (File_position f w) (\<lambda>p.
       let n = sz - p
       in Inr (sint (if n > 0x7FFF then 0x7FFF else n))))"

text \<open>
  \<open>strrchr\<close> of the C library, for a character other than the terminator: the index
  of the last occurrence, or \<open>NULL\<close>.
\<close>

fun strrchr :: "string \<Rightarrow> char \<Rightarrow> nat option" where
  "strrchr [] c = None"
| "strrchr (x # xs) c =
     (case strrchr xs c of
        Some i \<Rightarrow> Some (Suc i)
      | None \<Rightarrow> if x = c then Some 0 else None)"

text \<open>
  \<open>File::name\<close>. The pointer returned is \<open>NULL\<close> (\<open>None\<close>) or points into the block of
  \<open>_name\<close>: \<open>Some (a, i)\<close> is the address of the character at index \<open>i\<close> of block \<open>a\<close>.
\<close>

definition File_name :: "File \<Rightarrow> 'v world \<Rightarrow> stop + (nat \<times> nat) option" where
  "File_name f w =
     (case m_name f of
        None \<Rightarrow> Inl Undefined_Behaviour
      | Some a \<Rightarrow>
          andThen (the_str (m_name f) w) (\<lambda>s.
            case strrchr s CHR ''/'' of
              None \<Rightarrow> Inr None
            | Some i \<Rightarrow> Inr (Some (a, if s ! i = CHR ''/'' then i + 1 else i))))"

text \<open>
  \<open>File::openNextFile\<close>, in the configuration \<open>_FATFS == 68300\<close>. One turn of the
  \<open>while (!found)\<close> loop either goes round again (the \<open>continue\<close> on a name that starts
  with a dot) or sets \<open>found\<close>; the loop ends only when the driver stops reporting
  such names. The result is the new \<open>File\<close>, this \<open>File\<close> (whose \<open>_dir\<close> the driver
  advanced) and the world.
\<close>

datatype 'v turn = Again File "'v world" | Found "stop + (File \<times> File \<times> 'v world)"

definition openNextFile_turn ::
  "'v ext \<Rightarrow> 8 word \<Rightarrow> File \<Rightarrow> File \<Rightarrow> 'v world \<Rightarrow> 'v turn" where
  "openNextFile_turn e mode filtmp this w =
     (case f_readdir e (m_dir this) (vol w) of
        (res, fno, d, v) \<Rightarrow>
          let this = this\<lparr>m_dir := d\<rparr>;
              w1 = logged (Call_readdir res (fname fno)) v w
          in if res \<noteq> FR_OK \<or> fname fno = [] then
               Found (Inr (filtmp\<lparr>m_res := res\<rparr>, this, w1))
             else if hd (fname fno) = CHR ''.'' then Again this w1
             else
               let fn = fname fno in
               Found
                 (andThen (the_str (m_name this) w1) (\<lambda>nm.
                  let name_len = length nm in
                  case malloc (Str []) w1 of
                    (fullPath, w2) \<Rightarrow>
                      if fullPath \<noteq> None then
                        andThen
                          (put fullPath
                             (Str (if (name_len > 0) \<and> (nm ! (name_len - 1) = CHR ''/'')
                                   then nm @ fn else nm @ ''/'' @ fn)) w2) (\<lambda>w3.
                        andThen (the_str fullPath w3) (\<lambda>path.
                        andThen (SDClass_open e path mode w3) (\<lambda>(opened, w4).
                        andThen (free fullPath w4) (\<lambda>w5.
                        Inr (opened, this, w5)))))
                      else Inr (filtmp\<lparr>m_res := FR_NOT_ENOUGH_CORE\<rparr>, this, w2))))"

partial_function (option) openNextFile_loop ::
  "'v ext \<Rightarrow> 8 word \<Rightarrow> File \<Rightarrow> File \<Rightarrow> 'v world \<Rightarrow> (stop + (File \<times> File \<times> 'v world)) option" where
  "openNextFile_loop e mode filtmp this w =
     (case openNextFile_turn e mode filtmp this w of
        Again this' w' \<Rightarrow> openNextFile_loop e mode filtmp this' w'
      | Found r \<Rightarrow> Some r)"

declare openNextFile_loop.simps [code]

definition File_openNextFile ::
  "'v ext \<Rightarrow> File \<Rightarrow> 8 word \<Rightarrow> 'v world \<Rightarrow> (stop + (File \<times> File \<times> 'v world)) option" where
  "File_openNextFile e this mode w = openNextFile_loop e mode (File_ctor FR_OK w) this w"

section \<open>Notions the properties are stated with\<close>

text \<open>The driver calls made between two worlds.\<close>

definition since :: "'v world \<Rightarrow> 'v world \<Rightarrow> call list" where
  "since w w' = drop (length (calls w)) (calls w')"

text \<open>
  A \<open>File\<close> owns its blocks in a world: a non-null \<open>_name\<close> points to a live string
  and a non-null \<open>_fil\<close> to a live \<open>FIL\<close>.
\<close>

definition owned :: "File \<Rightarrow> 'v world \<Rightarrow> bool" where
  "owned f w =
     ((case m_name f of
         None \<Rightarrow> True
       | Some a \<Rightarrow> (case heap w a of Some (Str s) \<Rightarrow> True | _ \<Rightarrow> False)) \<and>
      (case m_fil f of
         None \<Rightarrow> True
       | Some b \<Rightarrow> (case heap w b of Some (Fil fil) \<Rightarrow> True | _ \<Rightarrow> False)))"

text \<open>
  The driver reports \<open>n\<close> names in a row that start with a dot, from the directory
  object \<open>d\<close> on the volume \<open>v\<close>; the result is the object and the volume it leaves.
\<close>

fun dots :: "'v ext \<Rightarrow> nat \<Rightarrow> DIR \<Rightarrow> 'v \<Rightarrow> (DIR \<times> 'v) option" where
  "dots e 0 d v = Some (d, v)"
| "dots e (Suc n) d v =
     (case f_readdir e d v of
        (res, fno, d', v') \<Rightarrow>
          if res = FR_OK \<and> fname fno \<noteq> [] \<and> hd (fname fno) = CHR ''.''
          then dots e n d' v' else None)"

text \<open>
  The \<open>File\<close> values the interface hands out: those of the constructor, of \<open>open\<close>,
  \<open>openRoot\<close> and \<open>openNextFile\<close>, and what \<open>close\<close> and \<open>openNextFile\<close> make of one
  of them (\<open>openNextFile\<close> is for a \<open>File\<close> that is not bound to a file).
\<close>

inductive produced :: "'v ext \<Rightarrow> File \<Rightarrow> bool" for e :: "'v ext" where
  by_ctor: "produced e (File_ctor r (w :: 'v world))"
| by_open: "SDClass_open e path mode w = Inr (f, w') \<Longrightarrow> produced e f"
| by_openRoot: "SDClass_openRoot e mode w = Inr (f, w') \<Longrightarrow> produced e f"
| by_openNextFile:
    "File_openNextFile e this mode w = Some (Inr (f, this', w')) \<Longrightarrow> produced e f"
| by_advance:
    "produced e this \<Longrightarrow> m_fil this = None \<Longrightarrow>
     File_openNextFile e this mode w = Some (Inr (f, this', w')) \<Longrightarrow> produced e this'"
| by_close: "produced e f \<Longrightarrow> File_close e f w = Inr (f', w') \<Longrightarrow> produced e f'"

text \<open>
  What holds of a result \<open>y\<close> of the loop of \<open>openNextFile\<close>, if it is a return: the new
  \<open>File\<close> is \<open>filtmp\<close> with a result stored, or comes from \<open>open\<close>; this \<open>File\<close> keeps
  its two pointers.
\<close>

definition loop_post ::
  "'v ext \<Rightarrow> 8 word \<Rightarrow> File \<Rightarrow> File \<Rightarrow> 'v world \<Rightarrow>
   (stop + (File \<times> File \<times> 'v world)) \<Rightarrow> bool" where
  "loop_post e mode filtmp dirf w y \<longleftrightarrow>
     (\<forall>f dirf' w'. y = Inr (f, dirf', w') \<longrightarrow>
        ((\<exists>res. f = filtmp\<lparr>m_res := res\<rparr>) \<or>
         (\<exists>path w1 w2. SDClass_open e path mode (w1 :: 'v world) = Inr (f, w2))) \<and>
        m_name dirf' = m_name dirf \<and> m_fil dirf' = m_fil dirf)"

text \<open>What a caller sees of a returned \<open>File\<close>: the value, the trace and its truth value.\<close>

definition seen :: "stop + (File \<times> 'v world) \<Rightarrow> stop + (File \<times> call list \<times> (stop + bool))" where
  "seen r = (case r of Inl s \<Rightarrow> Inl s | Inr (f, w) \<Rightarrow> Inr (f, calls w, File_bool f w))"

text \<open>Two calls in a row, as a caller makes them: open a path, then read one byte.\<close>

definition read_first ::
  "'v ext \<Rightarrow> string \<Rightarrow> 8 word \<Rightarrow> 'v world \<Rightarrow> stop + (int \<times> call list)" where
  "read_first e path mode w =
     andThen (SDClass_open e path mode w) (\<lambda>(f, w1).
     andThen (File_read e f w1) (\<lambda>(c, w2). Inr (c, since w w2)))"

text \<open>
  Open a path, then seek: \<open>size()\<close> before the seek, what \<open>seek\<close> returned, and
  \<open>position()\<close> afterwards.
\<close>

definition seek_after_open ::
  "'v ext \<Rightarrow> string \<Rightarrow> 8 word \<Rightarrow> 32 word \<Rightarrow> 'v world \<Rightarrow>
   stop + (32 word \<times> bool \<times> 32 word \<times> call list)" where
  "seek_after_open e path mode pos w =
     andThen (SDClass_open e path mode w) (\<lambda>(f, w1).
     andThen (File_size f w1) (\<lambda>sz.
     andThen (File_seek e f pos w1) (\<lambda>(ok, w2).
     andThen (File_position f w2) (\<lambda>p. Inr (sz, ok, p, since w w2)))))"

section \<open>A driver over a disk in memory\<close>

text \<open>
  To run the wrapper on concrete inputs the driver parameter needs a value. This one
  keeps the volume as a list of absolute paths with their nodes, in order of creation;
  the root \<open>/\<close> is always there. It answers as the FAT driver documents: reading at the
  end of a file succeeds and transfers nothing, a directory does not open as a file,
  a missing parent is \<open>FR_NO_PATH\<close>, the end of a directory is an empty name.
\<close>

datatype node = Reg "8 word list" | Folder

type_synonym disk = "(string \<times> node) list"

definition dirname :: "string \<Rightarrow> string" where
  "dirname p =
     (case strrchr p CHR ''/'' of
        None \<Rightarrow> []
      | Some i \<Rightarrow> if i = 0 then ''/'' else take i p)"

definition basename :: "string \<Rightarrow> string" where
  "basename p = (case strrchr p CHR ''/'' of None \<Rightarrow> p | Some i \<Rightarrow> drop (Suc i) p)"

definition is_folder :: "disk \<Rightarrow> string \<Rightarrow> bool" where
  "is_folder d p = (p = ''/'' \<or> map_of d p = Some Folder)"

definition slot :: "disk \<Rightarrow> string \<Rightarrow> nat" where
  "slot d p = length (takeWhile (\<lambda>x. fst x \<noteq> p) d)"

definition info :: "string \<Rightarrow> node \<Rightarrow> FILINFO" where
  "info p n =
     (case n of
        Reg bs \<Rightarrow> \<lparr>fname = basename p, fattrib = 0x20, fsize = of_nat (length bs)\<rparr>
      | Folder \<Rightarrow> \<lparr>fname = basename p, fattrib = 0x10, fsize = 0\<rparr>)"

definition no_info :: FILINFO where
  "no_info = \<lparr>fname = [], fattrib = 0, fsize = 0\<rparr>"

definition ram_stat :: "string \<Rightarrow> disk \<Rightarrow> FRESULT \<times> FILINFO \<times> disk" where
  "ram_stat p d =
     (case map_of d p of
        Some n \<Rightarrow> (FR_OK, info p n, d)
      | None \<Rightarrow>
          (if p = ''/'' then FR_INVALID_NAME
           else if is_folder d (dirname p) then FR_NO_FILE else FR_NO_PATH, no_info, d))"

definition ram_mkdir :: "string \<Rightarrow> disk \<Rightarrow> FRESULT \<times> disk" where
  "ram_mkdir p d =
     (if p = ''/'' \<or> map_of d p \<noteq> None then (FR_EXIST, d)
      else if is_folder d (dirname p) then (FR_OK, d @ [(p, Folder)])
      else (FR_NO_PATH, d))"

definition ram_open :: "FIL \<Rightarrow> string \<Rightarrow> 8 word \<Rightarrow> disk \<Rightarrow> FRESULT \<times> FIL \<times> disk" where
  "ram_open fil p m d =
     (case map_of d p of
        Some Folder \<Rightarrow> (FR_NO_FILE, fil\<lparr>fil_fs := 0\<rparr>, d)
      | Some (Reg bs) \<Rightarrow>
          if m AND 0x04 \<noteq> 0 then (FR_EXIST, fil\<lparr>fil_fs := 0\<rparr>, d)
          else if m AND 0x08 \<noteq> 0 then
            (FR_OK, \<lparr>fil_fs = 1, objsize = 0, fptr = 0, fil_clust = slot d p\<rparr>,
             d[slot d p := (p, Reg [])])
          else
            (FR_OK,
             \<lparr>fil_fs = 1, objsize = of_nat (length bs), fptr = 0, fil_clust = slot d p\<rparr>, d)
      | None \<Rightarrow>
          if p = ''/'' then (FR_INVALID_NAME, fil\<lparr>fil_fs := 0\<rparr>, d)
          else if \<not> is_folder d (dirname p) then (FR_NO_PATH, fil\<lparr>fil_fs := 0\<rparr>, d)
          else if m AND 0x1C \<noteq> 0 then
            (FR_OK, \<lparr>fil_fs = 1, objsize = 0, fptr = 0, fil_clust = length d\<rparr>,
             d @ [(p, Reg [])])
          else (FR_NO_FILE, fil\<lparr>fil_fs := 0\<rparr>, d))"

definition ram_opendir :: "DIR \<Rightarrow> string \<Rightarrow> disk \<Rightarrow> FRESULT \<times> DIR \<times> disk" where
  "ram_opendir dr p d =
     (if is_folder d p then
        (FR_OK,
         \<lparr>dir_fs = 1, dir_clust = (if p = ''/'' then 0 else Suc (slot d p)), dptr = 0\<rparr>, d)
      else (FR_NO_PATH, dr\<lparr>dir_fs := 0\<rparr>, d))"

definition ram_readdir :: "DIR \<Rightarrow> disk \<Rightarrow> FRESULT \<times> FILINFO \<times> DIR \<times> disk" where
  "ram_readdir dr d =
     (if dir_fs dr = 0 \<or> dir_clust dr > length d then (FR_INVALID_OBJECT, no_info, dr, d)
      else
        let folder = (if dir_clust dr = 0 then ''/'' else fst (d ! (dir_clust dr - 1)));
            entries = filter (\<lambda>x. dirname (fst x) = folder) d
        in if dptr dr < length entries then
             (FR_OK, info (fst (entries ! dptr dr)) (snd (entries ! dptr dr)),
              dr\<lparr>dptr := Suc (dptr dr)\<rparr>, d)
           else (FR_OK, no_info, dr, d))"

definition ram_closedir :: "DIR \<Rightarrow> disk \<Rightarrow> FRESULT \<times> DIR \<times> disk" where
  "ram_closedir dr d =
     (if dir_fs dr = 0 then (FR_INVALID_OBJECT, dr, d) else (FR_OK, dr\<lparr>dir_fs := 0\<rparr>, d))"

definition ram_read :: "FIL \<Rightarrow> nat \<Rightarrow> disk \<Rightarrow> FRESULT \<times> 8 word list \<times> FIL \<times> disk" where
  "ram_read fil btr d =
     (if fil_fs fil = 0 \<or> fil_clust fil \<ge> length d then (FR_INVALID_OBJECT, [], fil, d)
      else
        (case snd (d ! fil_clust fil) of
           Folder \<Rightarrow> (FR_INT_ERR, [], fil, d)
         | Reg bs \<Rightarrow>
             let out = take btr (drop (unat (fptr fil)) bs)
             in (FR_OK, out, fil\<lparr>fptr := fptr fil + of_nat (length out)\<rparr>, d)))"

definition ram_lseek :: "FIL \<Rightarrow> 32 word \<Rightarrow> disk \<Rightarrow> FRESULT \<times> FIL \<times> disk" where
  "ram_lseek fil ofs d =
     (if fil_fs fil = 0 then (FR_INVALID_OBJECT, fil, d)
      else (FR_OK, fil\<lparr>fptr := (if ofs > objsize fil then objsize fil else ofs)\<rparr>, d))"

definition ram_sync :: "FIL \<Rightarrow> disk \<Rightarrow> FRESULT \<times> FIL \<times> disk" where
  "ram_sync fil d = (if fil_fs fil = 0 then (FR_INVALID_OBJECT, fil, d) else (FR_OK, fil, d))"

definition ram_close :: "FIL \<Rightarrow> disk \<Rightarrow> FRESULT \<times> FIL \<times> disk" where
  "ram_close fil d =
     (if fil_fs fil = 0 then (FR_INVALID_OBJECT, fil, d) else (FR_OK, fil\<lparr>fil_fs := 0\<rparr>, d))"

text \<open>The flag values are those of ff.h: \<open>FA_WRITE\<close> is 2, \<open>FA_CREATE_ALWAYS\<close> is 8.\<close>

definition ramdrv :: "disk ext" where
  "ramdrv =
     \<lparr>FILE_WRITE = 0x02, FA_CREATE_ALWAYS = 0x08, getRoot = ''/'',
      f_stat = ram_stat, f_mkdir = ram_mkdir, f_open = ram_open, f_opendir = ram_opendir,
      f_readdir = ram_readdir, f_closedir = ram_closedir, f_read = ram_read,
      f_lseek = ram_lseek, f_sync = ram_sync, f_close = ram_close\<rparr>"

text \<open>The same driver on a medium that no longer answers a seek.\<close>

definition baddrv :: "disk ext" where
  "baddrv = ramdrv\<lparr>f_lseek := \<lambda>fil ofs d. (FR_DISK_ERR, fil, d)\<rparr>"

text \<open>A world at start-up: an empty heap, no allocation failure ahead, an empty trace.\<close>

definition boot :: "disk \<Rightarrow> disk world" where
  "boot d =
     \<lparr>heap = Map.empty, brk = 1, oom = [], junk_byte = 0x41,
      junk_fil = \<lparr>fil_fs = 7, objsize = 0x5A5A, fptr = 0xA5, fil_clust = 9\<rparr>,
      junk_dir = \<lparr>dir_fs = 7, dir_clust = 9, dptr = 3\<rparr>,
      vol = d, calls = []\<rparr>"

section \<open>Basic facts\<close>

lemma logged_simps [simp]:
  "heap (logged c v w) = heap w" "brk (logged c v w) = brk w" "oom (logged c v w) = oom w"
  "junk_byte (logged c v w) = junk_byte w" "junk_fil (logged c v w) = junk_fil w"
  "junk_dir (logged c v w) = junk_dir w" "vol (logged c v w) = v"
  "calls (logged c v w) = calls w @ [c]"
  by (simp_all add: logged_def)

lemma malloc_fails:
  "oom w \<noteq> [] \<and> hd (oom w) \<Longrightarrow> malloc init w = (None, w\<lparr>oom := tl (oom w)\<rparr>)"
  by (cases "oom w") (auto simp: malloc_def)

lemma malloc_gives:
  "\<not> (oom w \<noteq> [] \<and> hd (oom w)) \<Longrightarrow>
   malloc init w =
     (Some (brk w),
      w\<lparr>heap := (heap w)(brk w \<mapsto> init), brk := Suc (brk w), oom := tl (oom w)\<rparr>)"
  by (cases "oom w") (auto simp: malloc_def split: bool.splits)

lemma SDClass_open_oom1:
  "oom w \<noteq> [] \<and> hd (oom w) \<Longrightarrow> SDClass_open e path mode w = Inl Error_Handler"
  by (simp add: SDClass_open_def malloc_fails Let_def)

lemma SDClass_open_oom2:
  "\<not> (oom w \<noteq> [] \<and> hd (oom w)) \<Longrightarrow> tl (oom w) \<noteq> [] \<and> hd (tl (oom w)) \<Longrightarrow>
   SDClass_open e path mode w = Inl Error_Handler"
  by (simp add: SDClass_open_def malloc_gives malloc_fails put_def andThen_def Let_def)

lemma SDClass_open_eq:
  fixes e :: "'v ext" and path :: string and mode :: "8 word" and w :: "'v world"
  assumes room: "\<not> (oom w \<noteq> [] \<and> hd (oom w))" "\<not> (tl (oom w) \<noteq> [] \<and> hd (tl (oom w)))"
    and st: "f_stat e path (vol w) = (rs, fno, vs)"
    and m: "m = (if mode = FILE_WRITE e \<and> rs \<noteq> FR_OK then mode OR FA_CREATE_ALWAYS e else mode)"
    and v1: "v1 = (if mode = FILE_WRITE e then vs else vol w)"
    and pre: "pre = (if mode = FILE_WRITE e then [Call_stat path rs] else [])"
    and op: "f_open e ((junk_fil w)\<lparr>fil_fs := 0\<rparr>) path m v1 = (r, fil', v2)"
    and od: "f_opendir e ((junk_dir w)\<lparr>dir_fs := 0\<rparr>) path v2 = (r2, d, v3)"
  shows "SDClass_open e path mode w =
     Inr (if r = FR_OK then
            (\<lparr>m_name = Some (brk w), m_fil = Some (Suc (brk w)),
              m_dir = (junk_dir w)\<lparr>dir_fs := 0\<rparr>, m_res = FR_OK\<rparr>,
             w\<lparr>heap := (heap w)(brk w \<mapsto> Str path, Suc (brk w) \<mapsto> Fil fil'),
               brk := Suc (Suc (brk w)), oom := tl (tl (oom w)), vol := v2,
               calls := calls w @ pre @ [Call_open path m FR_OK]\<rparr>)
          else if r2 = FR_OK then
            (\<lparr>m_name = Some (brk w), m_fil = None, m_dir = d, m_res = FR_OK\<rparr>,
             w\<lparr>heap := (heap w)(brk w \<mapsto> Str path, Suc (brk w) := None),
               brk := Suc (Suc (brk w)), oom := tl (tl (oom w)), vol := v3,
               calls := calls w @ pre @ [Call_open path m r, Call_opendir path FR_OK]\<rparr>)
          else
            (\<lparr>m_name = None, m_fil = None, m_dir = d, m_res = r2\<rparr>,
             w\<lparr>heap := (heap w)(Suc (brk w) := None, brk w := None),
               brk := Suc (Suc (brk w)), oom := tl (tl (oom w)), vol := v3,
               calls := calls w @ pre @ [Call_open path m r, Call_opendir path r2]\<rparr>))"
proof (cases "mode = FILE_WRITE e")
  case True
  show ?thesis
  proof (cases "rs = FR_OK")
    case ok: True
    from True ok m v1 pre have "m = mode" "v1 = vs" "pre = [Call_stat path rs]" by simp_all
    with True ok room st op od show ?thesis
      by (simp add: SDClass_open_def malloc_gives put_def the_fil_def andThen_def free_def
            SDClass_exists_def call_f_open_def File_ctor_def Let_def logged_def)
  next
    case no: False
    from True no m v1 pre
    have "m = mode OR FA_CREATE_ALWAYS e" "v1 = vs" "pre = [Call_stat path rs]" by simp_all
    with True no room st op od show ?thesis
      by (simp add: SDClass_open_def malloc_gives put_def the_fil_def andThen_def free_def
            SDClass_exists_def call_f_open_def File_ctor_def Let_def logged_def)
  qed
next
  case False
  from False m v1 pre have "m = mode" "v1 = vol w" "pre = []" by simp_all
  with False room op od show ?thesis
    by (simp add: SDClass_open_def malloc_gives put_def the_fil_def andThen_def free_def
          call_f_open_def File_ctor_def Let_def logged_def)
qed

lemma SDClass_open_Inr:
  fixes e :: "'v ext"
  assumes run: "SDClass_open e path mode w = Inr (file, w')"
  shows "\<exists>rs fno vs m v1 pre r fil' v2 r2 d v3.
     f_stat e path (vol w) = (rs, fno, vs) \<and>
     m = (if mode = FILE_WRITE e \<and> rs \<noteq> FR_OK then mode OR FA_CREATE_ALWAYS e else mode) \<and>
     v1 = (if mode = FILE_WRITE e then vs else vol w) \<and>
     pre = (if mode = FILE_WRITE e then [Call_stat path rs] else []) \<and>
     f_open e ((junk_fil w)\<lparr>fil_fs := 0\<rparr>) path m v1 = (r, fil', v2) \<and>
     f_opendir e ((junk_dir w)\<lparr>dir_fs := 0\<rparr>) path v2 = (r2, d, v3) \<and>
     (file, w') =
       (if r = FR_OK then
            (\<lparr>m_name = Some (brk w), m_fil = Some (Suc (brk w)),
              m_dir = (junk_dir w)\<lparr>dir_fs := 0\<rparr>, m_res = FR_OK\<rparr>,
             w\<lparr>heap := (heap w)(brk w \<mapsto> Str path, Suc (brk w) \<mapsto> Fil fil'),
               brk := Suc (Suc (brk w)), oom := tl (tl (oom w)), vol := v2,
               calls := calls w @ pre @ [Call_open path m FR_OK]\<rparr>)
          else if r2 = FR_OK then
            (\<lparr>m_name = Some (brk w), m_fil = None, m_dir = d, m_res = FR_OK\<rparr>,
             w\<lparr>heap := (heap w)(brk w \<mapsto> Str path, Suc (brk w) := None),
               brk := Suc (Suc (brk w)), oom := tl (tl (oom w)), vol := v3,
               calls := calls w @ pre @ [Call_open path m r, Call_opendir path FR_OK]\<rparr>)
          else
            (\<lparr>m_name = None, m_fil = None, m_dir = d, m_res = r2\<rparr>,
             w\<lparr>heap := (heap w)(Suc (brk w) := None, brk w := None),
               brk := Suc (Suc (brk w)), oom := tl (tl (oom w)), vol := v3,
               calls := calls w @ pre @ [Call_open path m r, Call_opendir path r2]\<rparr>))"
proof -
  have room: "\<not> (oom w \<noteq> [] \<and> hd (oom w))" "\<not> (tl (oom w) \<noteq> [] \<and> hd (tl (oom w)))"
    using run SDClass_open_oom1 [of w e path mode] SDClass_open_oom2 [of w e path mode]
    by auto
  obtain rs fno vs where st: "f_stat e path (vol w) = (rs, fno, vs)"
    by (cases "f_stat e path (vol w)") auto
  define m where "m = (if mode = FILE_WRITE e \<and> rs \<noteq> FR_OK then mode OR FA_CREATE_ALWAYS e else mode)"
  define v1 where "v1 = (if mode = FILE_WRITE e then vs else vol w)"
  define pre where "pre = (if mode = FILE_WRITE e then [Call_stat path rs] else [])"
  obtain r fil' v2 where op: "f_open e ((junk_fil w)\<lparr>fil_fs := 0\<rparr>) path m v1 = (r, fil', v2)"
    by (cases "f_open e ((junk_fil w)\<lparr>fil_fs := 0\<rparr>) path m v1") auto
  obtain r2 d v3 where od: "f_opendir e ((junk_dir w)\<lparr>dir_fs := 0\<rparr>) path v2 = (r2, d, v3)"
    by (cases "f_opendir e ((junk_dir w)\<lparr>dir_fs := 0\<rparr>) path v2") auto
  note eq = SDClass_open_eq [OF room st m_def v1_def pre_def op od]
  from run [unfolded eq] st m_def v1_def pre_def op od show ?thesis
    by (intro exI conjI) (assumption | simp)+
qed


text \<open>\<open>open\<close> returns exactly when its two allocations succeed; otherwise it ends in \<open>Error_Handler\<close>.\<close>

lemma SDClass_open_returns_iff:
  fixes e :: "'v ext"
  shows "(\<exists>file w'. SDClass_open e path mode w = Inr (file, w')) \<longleftrightarrow>
         \<not> (oom w \<noteq> [] \<and> hd (oom w)) \<and> \<not> (tl (oom w) \<noteq> [] \<and> hd (tl (oom w)))"
proof
  assume "\<exists>file w'. SDClass_open e path mode w = Inr (file, w')"
  then obtain x where run: "SDClass_open e path mode w = Inr x" by blast
  have a: "\<not> (oom w \<noteq> [] \<and> hd (oom w))"
  proof
    assume "oom w \<noteq> [] \<and> hd (oom w)"
    from SDClass_open_oom1 [OF this, of e path mode] run show False by simp
  qed
  have b: "\<not> (tl (oom w) \<noteq> [] \<and> hd (tl (oom w)))"
  proof
    assume "tl (oom w) \<noteq> [] \<and> hd (tl (oom w))"
    from SDClass_open_oom2 [OF a this, of e path mode] run show False by simp
  qed
  from a b
  show "\<not> (oom w \<noteq> [] \<and> hd (oom w)) \<and> \<not> (tl (oom w) \<noteq> [] \<and> hd (tl (oom w)))" ..
next
  assume room: "\<not> (oom w \<noteq> [] \<and> hd (oom w)) \<and> \<not> (tl (oom w) \<noteq> [] \<and> hd (tl (oom w)))"
  obtain rs fno vs where st: "f_stat e path (vol w) = (rs, fno, vs)"
    by (cases "f_stat e path (vol w)") auto
  define m where "m = (if mode = FILE_WRITE e \<and> rs \<noteq> FR_OK then mode OR FA_CREATE_ALWAYS e else mode)"
  define v1 where "v1 = (if mode = FILE_WRITE e then vs else vol w)"
  define pre where "pre = (if mode = FILE_WRITE e then [Call_stat path rs] else [])"
  obtain r fil' v2 where op: "f_open e ((junk_fil w)\<lparr>fil_fs := 0\<rparr>) path m v1 = (r, fil', v2)"
    by (cases "f_open e ((junk_fil w)\<lparr>fil_fs := 0\<rparr>) path m v1") auto
  obtain r2 d v3 where od: "f_opendir e ((junk_dir w)\<lparr>dir_fs := 0\<rparr>) path v2 = (r2, d, v3)"
    by (cases "f_opendir e ((junk_dir w)\<lparr>dir_fs := 0\<rparr>) path v2") auto
  from room have r1: "\<not> (oom w \<noteq> [] \<and> hd (oom w))" and r2: "\<not> (tl (oom w) \<noteq> [] \<and> hd (tl (oom w)))"
    by simp_all
  obtain x where "SDClass_open e path mode w = Inr x"
    using SDClass_open_eq [OF r1 r2 st m_def v1_def pre_def op od] by blast
  then show "\<exists>file w'. SDClass_open e path mode w = Inr (file, w')" by (cases x) auto
qed

lemma since_append [simp]: "calls w' = calls w @ cs \<Longrightarrow> since w w' = cs"
  by (simp add: since_def)

lemma strrchr_None_iff: "strrchr s c = None \<longleftrightarrow> c \<notin> set s"
  by (induction s) (auto split: option.splits)

lemma strrchr_last: "c \<notin> set suf \<Longrightarrow> strrchr (pre @ c # suf) c = Some (length pre)"
proof (induction pre)
  case Nil
  then show ?case by (simp add: strrchr_None_iff [THEN iffD2])
next
  case (Cons x pre)
  then show ?case by simp
qed

lemma call_f_lseek_eq:
  assumes "the_fil (m_fil f) w = Inr fil" and "f_lseek e fil pos (vol w) = (r, fil', v)"
  shows "\<exists>a. m_fil f = Some a \<and>
           call_f_lseek e (m_fil f) pos w =
             Inr (r, (logged (Call_lseek pos r) v w)\<lparr>heap := (heap w)(a \<mapsto> Fil fil')\<rparr>)"
  using assms
  by (auto simp: call_f_lseek_def the_fil_def put_def andThen_def
           split: option.splits obj.splits)

lemma File_read_error:
  assumes "the_fil (m_fil f) w = Inr fil" and "fst (f_read e fil 1 (vol w)) \<noteq> FR_OK"
    and "File_read e f w = Inr (c, w')"
  shows "c = - 1"
  using assms
  by (auto simp: File_read_def call_f_read_def andThen_def Let_def
           split: prod.splits if_splits sum.splits)

lemma File_read_byte:
  assumes "the_fil (m_fil f) w = Inr fil" and "f_read e fil 1 (vol w) = (FR_OK, [b], fil', v)"
  shows "\<exists>w'. File_read e f w = Inr (sint b, w')"
  using assms
  by (auto simp: File_read_def call_f_read_def andThen_def Let_def the_fil_def put_def
           split: prod.splits if_splits sum.splits option.splits obj.splits)

lemma File_close_null: "m_name f = None \<Longrightarrow> File_close e f w = Inr (f, w)"
  by (simp add: File_close_def)

lemma call_f_sync_eq:
  assumes "heap w b = Some (Fil fil)" and "f_sync e fil (vol w) = (r, fil', v)"
  shows "call_f_sync e (Some b) w =
           Inr (r, (logged (Call_sync r) v w)\<lparr>heap := (heap w)(b \<mapsto> Fil fil')\<rparr>)"
  using assms by (simp add: call_f_sync_def the_fil_def put_def andThen_def)

lemma call_f_close_eq:
  assumes "heap w b = Some (Fil fil)" and "f_close e fil (vol w) = (r, fil', v)"
  shows "call_f_close e (Some b) w =
           Inr (r, (logged (Call_close r) v w)\<lparr>heap := (heap w)(b \<mapsto> Fil fil')\<rparr>)"
  using assms by (simp add: call_f_close_def the_fil_def put_def andThen_def)

text \<open>The first part of close: the file object is synced, closed and given back.\<close>

lemma File_close_owned:
  fixes e :: "'v ext"
  assumes nm: "m_name f = Some a" and str: "heap w a = Some (Str s)"
    and fl: "m_fil f = None \<or> (\<exists>b fil. m_fil f = Some b \<and> heap w b = Some (Fil fil))"
  shows "\<exists>d w1. File_close e f w = Inr (f\<lparr>m_name := None, m_fil := None, m_dir := d\<rparr>, w1) \<and>
           heap w1 = (\<lambda>x. if Some x = m_name f \<or> Some x = m_fil f then None else heap w x)"
proof -
  have stage1: "\<exists>w3. (if m_fil f \<noteq> None then
             andThen (the_fil (m_fil f) w) (\<lambda>fil.
             andThen
               (if fil_fs fil \<noteq> 0 then
                  andThen (call_f_sync e (m_fil f) w) (\<lambda>(r1, w1).
                  andThen (call_f_close e (m_fil f) w1) (\<lambda>(r2, w2). Inr w2))
                else Inr w) (\<lambda>w3.
             andThen (free (m_fil f) w3) (\<lambda>w4. Inr (f\<lparr>m_fil := None\<rparr>, w4))))
           else Inr (f, w)) = Inr (f\<lparr>m_fil := None\<rparr>, w3) \<and>
           heap w3 = (\<lambda>x. if Some x = m_fil f then None else heap w x)"
  proof (cases "m_fil f")
    case None
    then have "f\<lparr>m_fil := None\<rparr> = f" by simp
    with None show ?thesis by auto
  next
    case (Some b)
    with fl obtain fil where fil: "heap w b = Some (Fil fil)" by auto
    show ?thesis
    proof (cases "fil_fs fil = 0")
      case True
      with Some fil show ?thesis
        by (auto simp: the_fil_def andThen_def free_def)
    next
      case False
      obtain r1 fil1 v1 where s: "f_sync e fil (vol w) = (r1, fil1, v1)"
        by (cases "f_sync e fil (vol w)") auto
      let ?w1 = "(logged (Call_sync r1) v1 w)\<lparr>heap := (heap w)(b \<mapsto> Fil fil1)\<rparr>"
      obtain r2 fil2 v2 where c: "f_close e fil1 (vol ?w1) = (r2, fil2, v2)"
        by (cases "f_close e fil1 (vol ?w1)") auto
      have h1: "heap ?w1 b = Some (Fil fil1)" by simp
      note s' = call_f_sync_eq [OF fil s]
      note c' = call_f_close_eq [OF h1 c]
      from Some fil False show ?thesis
        by (auto simp: the_fil_def andThen_def s' c' free_def)
    qed
  qed
  then obtain w3 where
    eq: "(if m_fil f \<noteq> None then
             andThen (the_fil (m_fil f) w) (\<lambda>fil.
             andThen
               (if fil_fs fil \<noteq> 0 then
                  andThen (call_f_sync e (m_fil f) w) (\<lambda>(r1, w1).
                  andThen (call_f_close e (m_fil f) w1) (\<lambda>(r2, w2). Inr w2))
                else Inr w) (\<lambda>w3.
             andThen (free (m_fil f) w3) (\<lambda>w4. Inr (f\<lparr>m_fil := None\<rparr>, w4))))
           else Inr (f, w)) = Inr (f\<lparr>m_fil := None\<rparr>, w3)"
    and h3: "heap w3 = (\<lambda>x. if Some x = m_fil f then None else heap w x)"
    by blast
  have ne: "Some a \<noteq> m_fil f" using fl str by auto
  with h3 str have live: "heap w3 a = Some (Str s)" by simp
  show ?thesis
  proof (cases "dir_fs (m_dir f) \<noteq> 0")
    case True
    obtain r d v where cd: "f_closedir e (m_dir f) (vol w3) = (r, d, v)"
      by (cases "f_closedir e (m_dir f) (vol w3)") auto
    have "File_close e f w =
            Inr (f\<lparr>m_name := None, m_fil := None, m_dir := d\<rparr>,
                 (logged (Call_closedir r) v w3)\<lparr>heap := (heap w3)(a := None)\<rparr>)"
      unfolding File_close_def eq using nm True cd live
      by (simp add: andThen_def free_def)
    moreover have "heap ((logged (Call_closedir r) v w3)\<lparr>heap := (heap w3)(a := None)\<rparr>) =
        (\<lambda>x. if Some x = m_name f \<or> Some x = m_fil f then None else heap w x)"
      using nm h3 by (auto simp: fun_eq_iff)
    ultimately show ?thesis by blast
  next
    case False
    have "File_close e f w =
            Inr (f\<lparr>m_name := None, m_fil := None, m_dir := m_dir f\<rparr>,
                 w3\<lparr>heap := (heap w3)(a := None)\<rparr>)"
      unfolding File_close_def eq using nm False live
      by (simp add: andThen_def free_def)
    moreover have "heap (w3\<lparr>heap := (heap w3)(a := None)\<rparr>) =
        (\<lambda>x. if Some x = m_name f \<or> Some x = m_fil f then None else heap w x)"
      using nm h3 by (auto simp: fun_eq_iff)
    ultimately show ?thesis by blast
  qed
qed

lemma openNextFile_turn_Again:
  "openNextFile_turn e mode filtmp this w = Again this' w' \<Longrightarrow>
   m_name this' = m_name this \<and> m_fil this' = m_fil this"
  by (auto simp: openNextFile_turn_def Let_def split: prod.splits if_splits)

lemma openNextFile_turn_Found:
  assumes "openNextFile_turn e mode filtmp this w = Found (Inr (f, this', w'))"
  shows "((\<exists>res. f = filtmp\<lparr>m_res := res\<rparr>) \<or>
          (\<exists>path w1 w2. SDClass_open e path mode w1 = Inr (f, w2))) \<and>
         m_name this' = m_name this \<and> m_fil this' = m_fil this"
  using assms
  by (auto simp: openNextFile_turn_def Let_def andThen_def
           split: prod.splits if_splits sum.splits)

lemma turn_Again_post:
  assumes "openNextFile_turn e mode filtmp dirf w = Again d1 w1"
    and "loop_post e mode filtmp d1 w1 y"
  shows "loop_post e mode filtmp dirf w y"
proof -
  from openNextFile_turn_Again [OF assms(1)]
  have "m_name d1 = m_name dirf" "m_fil d1 = m_fil dirf" by simp_all
  with assms(2) show ?thesis unfolding loop_post_def by metis
qed


lemma turn_Found_post:
  assumes "openNextFile_turn e mode filtmp dirf w = Found y"
  shows "loop_post e mode filtmp dirf w y"
  unfolding loop_post_def
proof (intro allI impI)
  fix f dirf' w'
  assume "y = Inr (f, dirf', w')"
  with assms have "openNextFile_turn e mode filtmp dirf w = Found (Inr (f, dirf', w'))" by simp
  from openNextFile_turn_Found [OF this]
  show "((\<exists>res. f = filtmp\<lparr>m_res := res\<rparr>) \<or>
         (\<exists>path w1 w2. SDClass_open e path mode w1 = Inr (f, w2))) \<and>
        m_name dirf' = m_name dirf \<and> m_fil dirf' = m_fil dirf" .
qed

lemma openNextFile_loop_post:
  assumes run: "openNextFile_loop e mode filtmp dirf w = Some y"
  shows "loop_post e mode filtmp dirf w y"
proof (rule openNextFile_loop.raw_induct [where P = loop_post, OF _ run])
  fix loop and e :: "'v ext" and mode filtmp dirf and w :: "'v world" and y
  assume IH: "\<And>e mode filtmp dirf w y. loop e mode filtmp dirf w = Some y \<Longrightarrow>
                loop_post e mode filtmp dirf w y"
    and eq: "(case openNextFile_turn e mode filtmp dirf w of
                Again this' w' \<Rightarrow> loop e mode filtmp this' w'
              | Found r \<Rightarrow> Some r) = Some y"
  show "loop_post e mode filtmp dirf w y"
  proof (cases "openNextFile_turn e mode filtmp dirf w")
    case (Again d1 w1)
    with eq have "loop e mode filtmp d1 w1 = Some y" by simp
    from turn_Again_post [OF Again IH [OF this]] show ?thesis .
  next
    case (Found r)
    with eq have "y = r" by simp
    with Found show ?thesis by (simp add: turn_Found_post)
  qed
qed

lemma SDClass_open_shape:
  assumes "SDClass_open e path mode w = Inr (f, w')"
  shows "(m_fil f = None \<or> dir_fs (m_dir f) = 0) \<and> (m_name f = None \<longrightarrow> m_fil f = None)"
proof -
  from SDClass_open_Inr [OF assms] obtain r fil' v2 r2 d v3 pre m where
    "(f, w') =
       (if r = FR_OK then
            (\<lparr>m_name = Some (brk w), m_fil = Some (Suc (brk w)),
              m_dir = (junk_dir w)\<lparr>dir_fs := 0\<rparr>, m_res = FR_OK\<rparr>,
             w\<lparr>heap := (heap w)(brk w \<mapsto> Str path, Suc (brk w) \<mapsto> Fil fil'),
               brk := Suc (Suc (brk w)), oom := tl (tl (oom w)), vol := v2,
               calls := calls w @ pre @ [Call_open path m FR_OK]\<rparr>)
          else if r2 = FR_OK then
            (\<lparr>m_name = Some (brk w), m_fil = None, m_dir = d, m_res = FR_OK\<rparr>,
             w\<lparr>heap := (heap w)(brk w \<mapsto> Str path, Suc (brk w) := None),
               brk := Suc (Suc (brk w)), oom := tl (tl (oom w)), vol := v3,
               calls := calls w @ pre @ [Call_open path m r, Call_opendir path FR_OK]\<rparr>)
          else
            (\<lparr>m_name = None, m_fil = None, m_dir = d, m_res = r2\<rparr>,
             w\<lparr>heap := (heap w)(Suc (brk w) := None, brk w := None),
               brk := Suc (Suc (brk w)), oom := tl (tl (oom w)), vol := v3,
               calls := calls w @ pre @ [Call_open path m r, Call_opendir path r2]\<rparr>))"
    by blast
  then show ?thesis by (auto split: if_splits)
qed

lemma File_close_shape:
  assumes "File_close e f w = Inr (f', w')"
    and "(m_fil f = None \<or> dir_fs (m_dir f) = 0) \<and> (m_name f = None \<longrightarrow> m_fil f = None)"
  shows "(m_fil f' = None \<or> dir_fs (m_dir f') = 0) \<and> (m_name f' = None \<longrightarrow> m_fil f' = None)"
proof (cases "m_name f")
  case None
  with assms(1) File_close_null [of f e w] have "f' = f" by simp
  with assms(2) show ?thesis by simp
next
  case (Some a)
  with assms(1) have "m_fil f' = None"
    by (auto simp: File_close_def andThen_def split: if_splits sum.splits prod.splits)
  then show ?thesis by simp
qed

lemma produced_shape:
  fixes e :: "'v ext"
  shows "produced e f \<Longrightarrow>
   (m_fil f = None \<or> dir_fs (m_dir f) = 0) \<and> (m_name f = None \<longrightarrow> m_fil f = None)"
proof (induction rule: produced.induct)
  case (by_ctor r w)
  show ?case by (simp add: File_ctor_def)
next
  case (by_open path mode w f w')
  then show ?case by (rule SDClass_open_shape)
next
  case (by_openRoot mode w f w')
  then show ?case unfolding SDClass_openRoot_def by (rule SDClass_open_shape)
next
  case (by_openNextFile this mode w f this' w')
  from openNextFile_loop_post [OF by_openNextFile [unfolded File_openNextFile_def]]
  have "(\<exists>res. f = (File_ctor FR_OK w)\<lparr>m_res := res\<rparr>) \<or>
        (\<exists>path w1 w2. SDClass_open e path mode (w1 :: 'v world) = Inr (f, w2))"
    unfolding loop_post_def by blast
  then show ?case
  proof
    assume "\<exists>res. f = (File_ctor FR_OK w)\<lparr>m_res := res\<rparr>"
    then show ?thesis by (auto simp: File_ctor_def)
  next
    assume "\<exists>path w1 w2. SDClass_open e path mode w1 = Inr (f, w2)"
    then show ?thesis by (elim exE) (rule SDClass_open_shape)
  qed
next
  case (by_advance this mode w f this' w')
  from openNextFile_loop_post [OF by_advance.hyps(3) [unfolded File_openNextFile_def]]
  have "m_name this' = m_name this \<and> m_fil this' = m_fil this"
    unfolding loop_post_def by blast
  with by_advance.hyps(2) show ?case by simp
next
  case (by_close f w f' w')
  from File_close_shape [OF by_close.hyps(2) by_close.IH] show ?case .
qed

lemma the_str_heap: "heap w1 = heap w \<Longrightarrow> the_str p w1 = the_str p w"
  by (simp add: the_str_def split: option.splits)

lemma the_str_logged [simp]: "the_str p (logged c v w) = the_str p w"
  by (rule the_str_heap) simp

lemma turn_dot:
  assumes "f_readdir e (m_dir dirf) (vol w) = (FR_OK, fno, d1, v1)"
    and "fname fno \<noteq> []" and "hd (fname fno) = CHR ''.''"
  shows "openNextFile_turn e mode filtmp dirf w =
           Again (dirf\<lparr>m_dir := d1\<rparr>) (logged (Call_readdir FR_OK (fname fno)) v1 w)"
  using assms by (simp add: openNextFile_turn_def)

lemma turn_end:
  assumes "f_readdir e (m_dir dirf) (vol w) = (res, fno, d1, v1)"
    and "res \<noteq> FR_OK \<or> fname fno = []"
  shows "openNextFile_turn e mode filtmp dirf w =
           Found (Inr (filtmp\<lparr>m_res := res\<rparr>, dirf\<lparr>m_dir := d1\<rparr>,
                       logged (Call_readdir res (fname fno)) v1 w))"
  using assms by (simp add: openNextFile_turn_def)

lemma turn_oom:
  assumes "f_readdir e (m_dir dirf) (vol w) = (FR_OK, fno, d1, v1)"
    and "fname fno \<noteq> []" and "hd (fname fno) \<noteq> CHR ''.''"
    and "the_str (m_name dirf) w = Inr nm" and "oom w \<noteq> [] \<and> hd (oom w)"
  shows "openNextFile_turn e mode filtmp dirf w =
           Found (Inr (filtmp\<lparr>m_res := FR_NOT_ENOUGH_CORE\<rparr>, dirf\<lparr>m_dir := d1\<rparr>,
                       (logged (Call_readdir FR_OK (fname fno)) v1 w)\<lparr>oom := tl (oom w)\<rparr>))"
  using assms by (simp add: openNextFile_turn_def malloc_fails andThen_def Let_def)

text \<open>Names that start with a dot are passed over: the loop goes on from where they end.\<close>

lemma openNextFile_loop_dots:
  "dots e n (m_dir dirf) (vol w) = Some (d, v) \<Longrightarrow>
   \<exists>w1. openNextFile_loop e mode filtmp dirf w =
           openNextFile_loop e mode filtmp (dirf\<lparr>m_dir := d\<rparr>) w1 \<and>
         vol w1 = v \<and> heap w1 = heap w \<and> oom w1 = oom w"
proof (induction n arbitrary: dirf w)
  case 0
  then have "dirf\<lparr>m_dir := d\<rparr> = dirf" "vol w = v" by simp_all
  then show ?case by (intro exI [of _ w]) simp
next
  case (Suc n)
  obtain res fno d1 v1 where rd: "f_readdir e (m_dir dirf) (vol w) = (res, fno, d1, v1)"
    by (cases "f_readdir e (m_dir dirf) (vol w)") auto
  with Suc.prems have dot: "res = FR_OK" "fname fno \<noteq> []" "hd (fname fno) = CHR ''.''"
    and rest: "dots e n d1 v1 = Some (d, v)"
    by (auto split: if_splits)
  let ?dirf1 = "dirf\<lparr>m_dir := d1\<rparr>"
  let ?w1 = "logged (Call_readdir FR_OK (fname fno)) v1 w"
  from rd dot have turn: "openNextFile_turn e mode filtmp dirf w = Again ?dirf1 ?w1"
    by (simp add: turn_dot)
  have step: "openNextFile_loop e mode filtmp dirf w = openNextFile_loop e mode filtmp ?dirf1 ?w1"
    by (subst openNextFile_loop.simps) (simp add: turn)
  from rest have "dots e n (m_dir ?dirf1) (vol ?w1) = Some (d, v)" by simp
  from Suc.IH [OF this] obtain w2 where
    "openNextFile_loop e mode filtmp ?dirf1 ?w1 =
       openNextFile_loop e mode filtmp (?dirf1\<lparr>m_dir := d\<rparr>) w2"
    and "vol w2 = v" "heap w2 = heap ?w1" "oom w2 = oom ?w1"
    by blast
  with step show ?case by (intro exI [of _ w2]) simp
qed

section \<open>Properties\<close>

subsection \<open>Creating a directory\<close>

text \<open>
  C9. \<open>mkdir(path)\<close> makes exactly one driver call, \<open>f_mkdir\<close> on the path it was given
  (so no parent is ever created on the way), and returns true if and only if that call
  reports \<open>FR_OK\<close> (created) or \<open>FR_EXIST\<close> (an entry is already there). On the disk in
  memory: \<open>mkdir("/a")\<close> is true, a second \<open>mkdir("/a")\<close> is true again, and
  \<open>mkdir("/x/y")\<close> without \<open>/x\<close> is false.
\<close>

theorem SDClass_mkdir_true_iff:
  assumes "SDClass_mkdir e path w = (ok, w')"
  shows "since w w' = [Call_mkdir path (fst (f_mkdir e path (vol w)))] \<and>
         vol w' = snd (f_mkdir e path (vol w)) \<and>
         (ok \<longleftrightarrow> fst (f_mkdir e path (vol w)) = FR_OK \<or> fst (f_mkdir e path (vol w)) = FR_EXIST)"
  using assms
  by (auto simp: SDClass_mkdir_def since_def logged_def split: prod.splits if_splits)

theorem SDClass_mkdir_true_iff_witness:
  "fst (SDClass_mkdir ramdrv ''/a'' (boot [])) \<and>
   fst (SDClass_mkdir ramdrv ''/a'' (snd (SDClass_mkdir ramdrv ''/a'' (boot [])))) \<and>
   \<not> fst (SDClass_mkdir ramdrv ''/x/y'' (boot [])) \<and>
   since (boot []) (snd (SDClass_mkdir ramdrv ''/x/y'' (boot []))) = [Call_mkdir ''/x/y'' FR_NO_PATH]"
proof -
  let ?w1 = "snd (SDClass_mkdir ramdrv ''/a'' (boot []))"
  have a: "fst (f_mkdir ramdrv ''/a'' (vol (boot []))) = FR_OK" by code_simp
  have b: "fst (f_mkdir ramdrv ''/a'' (vol ?w1)) = FR_EXIST" by code_simp
  have c: "fst (f_mkdir ramdrv ''/x/y'' (vol (boot []))) = FR_NO_PATH" by code_simp
  note t = SDClass_mkdir_true_iff [OF prod.collapse [symmetric]]
  have 1: "fst (SDClass_mkdir ramdrv ''/a'' (boot []))"
    using t [where e = ramdrv and path = "''/a''" and w = "boot []"] a by blast
  have 2: "fst (SDClass_mkdir ramdrv ''/a'' ?w1)"
    using t [where e = ramdrv and path = "''/a''" and w = ?w1] b by blast
  have 3: "\<not> fst (SDClass_mkdir ramdrv ''/x/y'' (boot [])) \<and>
           since (boot []) (snd (SDClass_mkdir ramdrv ''/x/y'' (boot []))) = [Call_mkdir ''/x/y'' FR_NO_PATH]"
    using t [where e = ramdrv and path = "''/x/y''" and w = "boot []"] by (simp add: c)
  from 1 2 3 show ?thesis by blast
qed

subsection \<open>Bytes available\<close>

text \<open>
  C8. On a \<open>File\<close> bound to a file whose position does not exceed its size,
  \<open>available()\<close> returns the minimum of \<open>size() - position()\<close> and \<open>0x7FFF\<close>, and
  that value is not negative.
\<close>

theorem File_available_min:
  assumes "File_size f w = Inr sz" and "File_position f w = Inr p" and "p \<le> sz"
  shows "File_available f w = Inr (min (uint sz - uint p) 0x7FFF) \<and>
         0 \<le> min (uint sz - uint p) 0x7FFF"
proof -
  have le: "uint p \<le> uint sz" using assms(3) by (simp add: word_le_def)
  have sub: "uint (sz - p) = uint sz - uint p"
    using assms(3) by (simp add: uint_minus_simple_alt)
  have small: "sint (if sz - p > 0x7FFF then 0x7FFF else sz - p) = min (uint sz - uint p) 0x7FFF"
  proof (cases "sz - p > 0x7FFF")
    case True
    then have "uint (sz - p) > 0x7FFF" by (simp add: word_less_def)
    with True sub show ?thesis by simp
  next
    case False
    then have u: "uint (sz - p) \<le> 0x7FFF" by (simp add: word_less_def not_less)
    have "sint (sz - p) = signed_take_bit 31 (uint (sz - p))" by (simp add: sint_uint)
    also have "\<dots> = uint (sz - p)"
    proof (rule signed_take_bit_int_eq_self)
      have "(0::int) \<le> uint (sz - p)" by simp
      moreover have "- (2 ^ 31) \<le> (0::int)" by simp
      ultimately show "- (2 ^ 31) \<le> uint (sz - p)" by (rule order_trans [rotated])
      have "(0x7FFF::int) < 2 ^ 31" by simp
      with u show "uint (sz - p) < 2 ^ 31" by (rule le_less_trans)
    qed
    finally show ?thesis using False u sub by simp
  qed
  show ?thesis
    using assms(1,2) le small by (simp add: File_available_def andThen_def Let_def)
qed

theorem File_available_min_witness:
  "File_available \<lparr>m_name = Some 1, m_fil = Some 2, m_dir = junk_dir (boot []), m_res = FR_OK\<rparr>
     ((boot [])\<lparr>heap := [2 \<mapsto> Fil \<lparr>fil_fs = 1, objsize = 70000, fptr = 5, fil_clust = 0\<rparr>]\<rparr>) = Inr 0x7FFF"
proof -
  let ?f = "\<lparr>m_name = Some 1, m_fil = Some 2, m_dir = junk_dir (boot []), m_res = FR_OK\<rparr>"
  let ?w = "(boot [])\<lparr>heap := [2 \<mapsto> Fil \<lparr>fil_fs = 1, objsize = 70000, fptr = 5, fil_clust = 0\<rparr>]\<rparr>"
  have s: "File_size ?f ?w = Inr 70000" by (simp add: File_size_def the_fil_def andThen_def)
  have p: "File_position ?f ?w = Inr 5" by (simp add: File_position_def the_fil_def andThen_def)
  have le: "(5 :: 32 word) \<le> 70000" by simp
  show ?thesis using File_available_min [OF s p le] by simp
qed

subsection \<open>Opening a path\<close>

text \<open>
  C1. \<open>open\<close> returns whenever its two allocations succeed
  (\<open>SDClass_open_returns_iff\<close>). If the trace of the call shows that the attempt to
  open the path as a file failed and that the attempt to open it as a directory failed
  too, the \<open>File\<close> returned has \<open>_name\<close> null and \<open>_fil\<close> null, converts to false,
  keeps the result of the second attempt, and both blocks the call allocated have
  been given back.
\<close>

theorem SDClass_open_both_fail:
  fixes e :: "'v ext"
  assumes run: "SDClass_open e path mode w = Inr (file, w')"
    and f1: "Call_open path m r1 \<in> set (since w w')" and n1: "r1 \<noteq> FR_OK"
    and f2: "Call_opendir path r2 \<in> set (since w w')" and n2: "r2 \<noteq> FR_OK"
  shows "m_name file = None \<and> m_fil file = None \<and> m_res file = r2 \<and>
         File_bool file w' = Inr False \<and>
         heap w' = (heap w)(Suc (brk w) := None, brk w := None)"
proof -
  from SDClass_open_Inr [OF run]
  obtain rs m' pre r fil' v2 r2' d v3 where
    pre: "pre = (if mode = FILE_WRITE e then [Call_stat path rs] else [])" and
    out: "(file, w') =
       (if r = FR_OK then
            (\<lparr>m_name = Some (brk w), m_fil = Some (Suc (brk w)),
              m_dir = (junk_dir w)\<lparr>dir_fs := 0\<rparr>, m_res = FR_OK\<rparr>,
             w\<lparr>heap := (heap w)(brk w \<mapsto> Str path, Suc (brk w) \<mapsto> Fil fil'),
               brk := Suc (Suc (brk w)), oom := tl (tl (oom w)), vol := v2,
               calls := calls w @ pre @ [Call_open path m' FR_OK]\<rparr>)
          else if r2' = FR_OK then
            (\<lparr>m_name = Some (brk w), m_fil = None, m_dir = d, m_res = FR_OK\<rparr>,
             w\<lparr>heap := (heap w)(brk w \<mapsto> Str path, Suc (brk w) := None),
               brk := Suc (Suc (brk w)), oom := tl (tl (oom w)), vol := v3,
               calls := calls w @ pre @ [Call_open path m' r, Call_opendir path FR_OK]\<rparr>)
          else
            (\<lparr>m_name = None, m_fil = None, m_dir = d, m_res = r2'\<rparr>,
             w\<lparr>heap := (heap w)(Suc (brk w) := None, brk w := None),
               brk := Suc (Suc (brk w)), oom := tl (tl (oom w)), vol := v3,
               calls := calls w @ pre @ [Call_open path m' r, Call_opendir path r2']\<rparr>))"
    by blast
  have nopre: "Call_open path m r1 \<notin> set pre" "Call_opendir path r2 \<notin> set pre"
    using pre by auto
  show ?thesis
  proof (cases "r = FR_OK")
    case True
    with out have "since w w' = pre @ [Call_open path m' FR_OK]" by simp
    with f2 nopre show ?thesis by simp
  next
    case False
    show ?thesis
    proof (cases "r2' = FR_OK")
      case True
      with False out have "since w w' = pre @ [Call_open path m' r, Call_opendir path FR_OK]"
        by simp
      with f2 n2 nopre show ?thesis by auto
    next
      case no: False
      with False out have s: "since w w' = pre @ [Call_open path m' r, Call_opendir path r2']"
        and f: "file = \<lparr>m_name = None, m_fil = None, m_dir = d, m_res = r2'\<rparr>"
        and h: "heap w' = (heap w)(Suc (brk w) := None, brk w := None)"
        by simp_all
      from s f2 nopre have "r2' = r2" by auto
      with f h show ?thesis by (simp add: File_bool_def)
    qed
  qed
qed

theorem SDClass_open_both_fail_witness:
  "m_name (fst (projr (SDClass_open ramdrv ''/nope'' 1 (boot [])))) = None \<and>
   m_fil (fst (projr (SDClass_open ramdrv ''/nope'' 1 (boot [])))) = None \<and>
   m_res (fst (projr (SDClass_open ramdrv ''/nope'' 1 (boot [])))) = FR_NO_PATH \<and>
   File_bool (fst (projr (SDClass_open ramdrv ''/nope'' 1 (boot []))))
     (snd (projr (SDClass_open ramdrv ''/nope'' 1 (boot [])))) = Inr False"
proof -
  let ?X = "SDClass_open ramdrv ''/nope'' 1 (boot [])"
  have "\<not> isl ?X" by code_simp
  then have run: "?X = Inr (fst (projr ?X), snd (projr ?X))" by (cases ?X) simp_all
  have log: "since (boot []) (snd (projr ?X)) =
               [Call_open ''/nope'' 1 FR_NO_FILE, Call_opendir ''/nope'' FR_NO_PATH]"
    by code_simp
  have f1: "Call_open ''/nope'' 1 FR_NO_FILE \<in> set (since (boot []) (snd (projr ?X)))"
    and f2: "Call_opendir ''/nope'' FR_NO_PATH \<in> set (since (boot []) (snd (projr ?X)))"
    by (simp_all add: log)
  from SDClass_open_both_fail [OF run f1 _ f2] show ?thesis by simp
qed

text \<open>
  C2, as stated, fails: mode 3 (\<open>FA_READ | FA_WRITE\<close>) requests write access, yet for
  a path with no entry \<open>open\<close> passes it on unchanged and the \<open>File\<close> is invalid; and
  with mode \<open>FILE_WRITE\<close> on \<open>/x/y\<close>, where \<open>/x\<close> is missing, the flag is added but the
  driver cannot create the file, so the \<open>File\<close> is invalid again.
\<close>

theorem SDClass_open_write_access_counterexample:
  "(3 :: 8 word) AND 2 \<noteq> 0 \<and>
   fst (f_stat ramdrv ''/f.txt'' []) = FR_NO_FILE \<and>
   seen (SDClass_open ramdrv ''/f.txt'' 3 (boot [])) =
     Inr (\<lparr>m_name = None, m_fil = None, m_dir = \<lparr>dir_fs = 0, dir_clust = 9, dptr = 3\<rparr>,
           m_res = FR_NO_PATH\<rparr>,
          [Call_open ''/f.txt'' 3 FR_NO_FILE, Call_opendir ''/f.txt'' FR_NO_PATH],
          Inr False) \<and>
   fst (f_stat ramdrv ''/x/y'' []) = FR_NO_PATH \<and>
   seen (SDClass_open ramdrv ''/x/y'' 2 (boot [])) =
     Inr (\<lparr>m_name = None, m_fil = None, m_dir = \<lparr>dir_fs = 0, dir_clust = 9, dptr = 3\<rparr>,
           m_res = FR_NO_PATH\<rparr>,
          [Call_stat ''/x/y'' FR_NO_PATH, Call_open ''/x/y'' 10 FR_NO_PATH,
           Call_opendir ''/x/y'' FR_NO_PATH],
          Inr False)"
  by code_simp

text \<open>
  The first failure does not hang on the value of \<open>FILE_WRITE\<close>: whatever it is, every
  other mode reaches \<open>f_open\<close> as it is, and of the modes 2 (\<open>FA_WRITE\<close>) and 3, which
  both request write access, at least one is another mode.
\<close>

lemma SDClass_open_other_mode_unchanged:
  assumes "mode \<noteq> fw"
  shows "seen (SDClass_open (ramdrv\<lparr>FILE_WRITE := fw\<rparr>) ''/f.txt'' mode (boot [])) =
     (if mode AND 0x1C \<noteq> 0
      then Inr (\<lparr>m_name = Some 1, m_fil = Some 2,
                 m_dir = \<lparr>dir_fs = 0, dir_clust = 9, dptr = 3\<rparr>, m_res = FR_OK\<rparr>,
                [Call_open ''/f.txt'' mode FR_OK], Inr True)
      else Inr (\<lparr>m_name = None, m_fil = None,
                 m_dir = \<lparr>dir_fs = 0, dir_clust = 9, dptr = 3\<rparr>, m_res = FR_NO_PATH\<rparr>,
                [Call_open ''/f.txt'' mode FR_NO_FILE, Call_opendir ''/f.txt'' FR_NO_PATH],
                Inr False))"
proof -
  let ?e = "ramdrv\<lparr>FILE_WRITE := fw\<rparr>"
  let ?w = "boot []"
  have room: "\<not> (oom ?w \<noteq> [] \<and> hd (oom ?w))" "\<not> (tl (oom ?w) \<noteq> [] \<and> hd (tl (oom ?w)))"
    by (simp_all add: boot_def)
  have st: "f_stat ?e ''/f.txt'' (vol ?w) = (FR_NO_FILE, no_info, [])"
    by (simp add: ramdrv_def boot_def ram_stat_def is_folder_def dirname_def)
  have m: "mode = (if mode = FILE_WRITE ?e \<and> FR_NO_FILE \<noteq> FR_OK
                   then mode OR FA_CREATE_ALWAYS ?e else mode)"
    using assms by (simp add: ramdrv_def)
  have v1: "vol ?w = (if mode = FILE_WRITE ?e then [] else vol ?w)"
    by (simp add: boot_def)
  have pre: "[] = (if mode = FILE_WRITE ?e then [Call_stat ''/f.txt'' FR_NO_FILE] else [])"
    using assms by (simp add: ramdrv_def)
  obtain r fil' v2 where op: "f_open ?e ((junk_fil ?w)\<lparr>fil_fs := 0\<rparr>) ''/f.txt'' mode (vol ?w) = (r, fil', v2)"
    by (cases "f_open ?e ((junk_fil ?w)\<lparr>fil_fs := 0\<rparr>) ''/f.txt'' mode (vol ?w)") auto
  obtain r2 d v3 where od: "f_opendir ?e ((junk_dir ?w)\<lparr>dir_fs := 0\<rparr>) ''/f.txt'' v2 = (r2, d, v3)"
    by (cases "f_opendir ?e ((junk_dir ?w)\<lparr>dir_fs := 0\<rparr>) ''/f.txt'' v2") auto
  note eq = SDClass_open_eq [OF room st m v1 pre op od]
  show ?thesis
  proof (cases "mode AND 0x1C \<noteq> 0")
    case True
    with op have "r = FR_OK" "fil' = \<lparr>fil_fs = 1, objsize = 0, fptr = 0, fil_clust = 0\<rparr>"
      by (auto simp: ramdrv_def boot_def ram_open_def is_folder_def dirname_def)
    with True show ?thesis
      unfolding eq by (simp add: seen_def File_bool_def boot_def the_fil_def andThen_def)
  next
    case False
    with op have "r = FR_NO_FILE" "v2 = []"
      by (auto simp: ramdrv_def boot_def ram_open_def is_folder_def dirname_def)
    moreover from this od have "r2 = FR_NO_PATH" "d = \<lparr>dir_fs = 0, dir_clust = 9, dptr = 3\<rparr>"
      by (auto simp: ramdrv_def boot_def ram_opendir_def is_folder_def)
    ultimately show ?thesis using False
      unfolding eq by (simp add: seen_def File_bool_def boot_def)
  qed
qed

text \<open>
  C2, amended. \<open>open(P, mode)\<close> asks \<open>f_stat\<close> only when \<open>mode\<close> equals \<open>FILE_WRITE\<close>,
  and adds \<open>FA_CREATE_ALWAYS\<close> to the mode exactly when \<open>mode\<close> equals \<open>FILE_WRITE\<close>
  and \<open>f_stat\<close> does not report \<open>FR_OK\<close> for \<open>P\<close>; in every other case (an entry exists,
  or the mode is another one, with or without the write bit) the mode reaches the
  single \<open>f_open\<close> call unchanged, so nothing is truncated that the caller's mode does
  not truncate. The \<open>File\<close> is bound to a file resource exactly when \<open>f_open\<close> reports
  \<open>FR_OK\<close>; it then converts to true exactly when the driver left \<open>obj.fs\<close> non-zero.
  On the disk in memory, \<open>open("/f.txt", FILE_WRITE)\<close> creates an empty file when
  there is none and leaves the contents of an existing one alone.
\<close>

theorem SDClass_open_create_policy:
  fixes e :: "'v ext"
  assumes run: "SDClass_open e path mode w = Inr (file, w')"
  shows "\<exists>m r rest.
     since w w' =
       (if mode = FILE_WRITE e then [Call_stat path (fst (f_stat e path (vol w)))] else []) @
       Call_open path m r # rest \<and>
     m = (if mode = FILE_WRITE e \<and> fst (f_stat e path (vol w)) \<noteq> FR_OK
          then mode OR FA_CREATE_ALWAYS e else mode) \<and>
     (m_fil file \<noteq> None \<longleftrightarrow> r = FR_OK) \<and>
     (if r = FR_OK
      then rest = [] \<and> m_res file = FR_OK \<and> m_name file \<noteq> None \<and>
           (\<exists>fil. the_fil (m_fil file) w' = Inr fil \<and> File_bool file w' = Inr (fil_fs fil \<noteq> 0))
      else \<exists>r2. rest = [Call_opendir path r2])"
proof -
  from SDClass_open_Inr [OF run]
  obtain rs fno vs m v1 pre r fil' v2 r2 d v3 where
    st: "f_stat e path (vol w) = (rs, fno, vs)" and
    m: "m = (if mode = FILE_WRITE e \<and> rs \<noteq> FR_OK then mode OR FA_CREATE_ALWAYS e else mode)" and
    pre: "pre = (if mode = FILE_WRITE e then [Call_stat path rs] else [])" and
    out: "(file, w') =
       (if r = FR_OK then
            (\<lparr>m_name = Some (brk w), m_fil = Some (Suc (brk w)),
              m_dir = (junk_dir w)\<lparr>dir_fs := 0\<rparr>, m_res = FR_OK\<rparr>,
             w\<lparr>heap := (heap w)(brk w \<mapsto> Str path, Suc (brk w) \<mapsto> Fil fil'),
               brk := Suc (Suc (brk w)), oom := tl (tl (oom w)), vol := v2,
               calls := calls w @ pre @ [Call_open path m FR_OK]\<rparr>)
          else if r2 = FR_OK then
            (\<lparr>m_name = Some (brk w), m_fil = None, m_dir = d, m_res = FR_OK\<rparr>,
             w\<lparr>heap := (heap w)(brk w \<mapsto> Str path, Suc (brk w) := None),
               brk := Suc (Suc (brk w)), oom := tl (tl (oom w)), vol := v3,
               calls := calls w @ pre @ [Call_open path m r, Call_opendir path FR_OK]\<rparr>)
          else
            (\<lparr>m_name = None, m_fil = None, m_dir = d, m_res = r2\<rparr>,
             w\<lparr>heap := (heap w)(Suc (brk w) := None, brk w := None),
               brk := Suc (Suc (brk w)), oom := tl (tl (oom w)), vol := v3,
               calls := calls w @ pre @ [Call_open path m r, Call_opendir path r2]\<rparr>))"
    by blast
  have rs: "rs = fst (f_stat e path (vol w))" using st by simp
  show ?thesis
  proof (cases "r = FR_OK")
    case True
    with out have "since w w' = pre @ Call_open path m r # []"
      and "file = \<lparr>m_name = Some (brk w), m_fil = Some (Suc (brk w)),
              m_dir = (junk_dir w)\<lparr>dir_fs := 0\<rparr>, m_res = FR_OK\<rparr>"
      and "heap w' = (heap w)(brk w \<mapsto> Str path, Suc (brk w) \<mapsto> Fil fil')"
      by simp_all
    with True m pre rs show ?thesis
      by (intro exI [of _ m] exI [of _ r] exI [of _ "[]"])
         (simp add: the_fil_def File_bool_def andThen_def)
  next
    case False
    show ?thesis
    proof (cases "r2 = FR_OK")
      case True
      with False out have "since w w' = pre @ Call_open path m r # [Call_opendir path FR_OK]"
        and "m_fil file = None"
        by simp_all
      with False m pre rs show ?thesis
        by (intro exI [of _ m] exI [of _ r] exI [of _ "[Call_opendir path FR_OK]"]) simp
    next
      case no: False
      with False out have "since w w' = pre @ Call_open path m r # [Call_opendir path r2]"
        and "m_fil file = None"
        by simp_all
      with False m pre rs show ?thesis
        by (intro exI [of _ m] exI [of _ r] exI [of _ "[Call_opendir path r2]"]) simp
    qed
  qed
qed

theorem SDClass_open_create_policy_witness:
  "since (boot []) (snd (projr (SDClass_open ramdrv ''/f.txt'' 2 (boot [])))) =
     [Call_stat ''/f.txt'' FR_NO_FILE, Call_open ''/f.txt'' 10 FR_OK] \<and>
   vol (snd (projr (SDClass_open ramdrv ''/f.txt'' 2 (boot [])))) = [(''/f.txt'', Reg [])] \<and>
   m_fil (fst (projr (SDClass_open ramdrv ''/f.txt'' 2 (boot [])))) \<noteq> None \<and>
   since (boot [(''/f.txt'', Reg [7])])
     (snd (projr (SDClass_open ramdrv ''/f.txt'' 2 (boot [(''/f.txt'', Reg [7])])))) =
     [Call_stat ''/f.txt'' FR_OK, Call_open ''/f.txt'' 2 FR_OK] \<and>
   vol (snd (projr (SDClass_open ramdrv ''/f.txt'' 2 (boot [(''/f.txt'', Reg [7])])))) =
     [(''/f.txt'', Reg [7])]"
proof -
  let ?X = "SDClass_open ramdrv ''/f.txt'' 2 (boot [])"
  let ?Y = "SDClass_open ramdrv ''/f.txt'' 2 (boot [(''/f.txt'', Reg [7])])"
  have "\<not> isl ?X" by code_simp
  then have run: "?X = Inr (fst (projr ?X), snd (projr ?X))" by (cases ?X) simp_all
  have log: "since (boot []) (snd (projr ?X)) =
     [Call_stat ''/f.txt'' FR_NO_FILE, Call_open ''/f.txt'' 10 FR_OK]"
    by code_simp
  have v: "vol (snd (projr ?X)) = [(''/f.txt'', Reg [])]" by code_simp
  have logY: "since (boot [(''/f.txt'', Reg [7])]) (snd (projr ?Y)) =
     [Call_stat ''/f.txt'' FR_OK, Call_open ''/f.txt'' 2 FR_OK]"
    by code_simp
  have vY: "vol (snd (projr ?Y)) = [(''/f.txt'', Reg [7])]" by code_simp
  have mw: "(2 :: 8 word) = FILE_WRITE ramdrv" by code_simp
  from SDClass_open_create_policy [OF run]
  obtain m r rest where
    s: "since (boot []) (snd (projr ?X)) =
       (if (2 :: 8 word) = FILE_WRITE ramdrv
        then [Call_stat ''/f.txt'' (fst (f_stat ramdrv ''/f.txt'' (vol (boot []))))] else []) @
       Call_open ''/f.txt'' m r # rest"
    and b: "m_fil (fst (projr ?X)) \<noteq> None \<longleftrightarrow> r = FR_OK"
    by blast
  from s log mw have "r = FR_OK" by simp
  with b have "m_fil (fst (projr ?X)) \<noteq> None" by simp
  with log v logY vY show ?thesis by simp
qed

subsection \<open>Reading one byte\<close>

text \<open>
  C3 says that \<open>read()\<close> returns -1 on a driver error and also at the end of the file.
  The first half holds (\<open>File_read_error\<close>), and a byte the driver transfers comes back
  as the \<open>int8_t\<close> it was stored in (\<open>File_read_byte\<close>). At the end of a file the
  driver reports \<open>FR_OK\<close> and transfers nothing; \<open>read()\<close> never looks at the count, so
  it returns whatever the uninitialised \<open>data\<close> holds: here 65, on an empty file.
\<close>

theorem File_read_at_end_of_file:
  "read_first ramdrv ''/e.txt'' 1 (boot [(''/e.txt'', Reg [])]) =
     Inr (65, [Call_open ''/e.txt'' 1 FR_OK, Call_read 1 FR_OK 0])"
  by code_simp

text \<open>A byte \<open>0xFF\<close> in the file comes back as -1 too, the \<open>int8_t\<close> being sign-extended.\<close>

lemma File_read_ff:
  "read_first ramdrv ''/e.txt'' 1 (boot [(''/e.txt'', Reg [0xFF])]) =
     Inr (- 1, [Call_open ''/e.txt'' 1 FR_OK, Call_read 1 FR_OK 1])"
  by code_simp

subsection \<open>Seeking\<close>

text \<open>
  C4, as stated, fails: on a medium that answers a seek with \<open>FR_DISK_ERR\<close>,
  \<open>size()\<close> is 3 and \<open>seek(2)\<close> returns false although \<open>0 <= 2 <= size()\<close>; the
  position stays 0.
\<close>

theorem File_seek_driver_error_counterexample:
  "seek_after_open baddrv ''/d.bin'' 1 2 (boot [(''/d.bin'', Reg [1, 2, 3])]) =
     Inr (3, False, 0, [Call_open ''/d.bin'' 1 FR_OK, Call_lseek 2 FR_DISK_ERR])"
  by code_simp

text \<open>
  C4, amended. On a \<open>File\<close> bound to a file, \<open>seek(pos)\<close> returns true if and only if
  \<open>pos <= size()\<close> and the driver's \<open>f_lseek\<close> reports \<open>FR_OK\<close>. When \<open>pos > size()\<close> it
  returns false without calling the driver and nothing changes, the position included;
  \<open>pos = size()\<close> is passed to the driver like any smaller one. After a call that
  reached the driver, \<open>position()\<close> is the read/write pointer the driver left, which is
  \<open>pos\<close> for a driver that honours the request.
\<close>

theorem File_seek_iff:
  fixes e :: "'v ext"
  assumes fil: "the_fil (m_fil f) w = Inr fil"
    and drv: "f_lseek e fil pos (vol w) = (r, fil', v)"
  shows "\<exists>ok w'. File_size f w = Inr (objsize fil) \<and> File_seek e f pos w = Inr (ok, w') \<and>
           (ok \<longleftrightarrow> pos \<le> objsize fil \<and> r = FR_OK) \<and>
           (if pos \<le> objsize fil
            then since w w' = [Call_lseek pos r] \<and> File_position f w' = Inr (fptr fil')
            else w' = w \<and> File_position f w' = Inr (fptr fil))"
proof (cases "pos \<le> objsize fil")
  case True
  from call_f_lseek_eq [OF fil drv] obtain a where
    a: "m_fil f = Some a" and
    c: "call_f_lseek e (m_fil f) pos w =
          Inr (r, (logged (Call_lseek pos r) v w)\<lparr>heap := (heap w)(a \<mapsto> Fil fil')\<rparr>)"
    by blast
  let ?w' = "(logged (Call_lseek pos r) v w)\<lparr>heap := (heap w)(a \<mapsto> Fil fil')\<rparr>"
  have "File_seek e f pos w = Inr (r = FR_OK, ?w')"
    using True fil c by (simp add: File_seek_def File_size_def andThen_def)
  moreover have "since w ?w' = [Call_lseek pos r]" by (simp add: since_def)
  moreover have "File_position f ?w' = Inr (fptr fil')"
    using a by (simp add: File_position_def the_fil_def andThen_def)
  moreover have "File_size f w = Inr (objsize fil)"
    using fil by (simp add: File_size_def andThen_def)
  ultimately show ?thesis using True by simp
next
  case False
  have "File_seek e f pos w = Inr (False, w)"
    using False fil by (simp add: File_seek_def File_size_def andThen_def)
  moreover have "File_position f w = Inr (fptr fil)"
    using fil by (simp add: File_position_def andThen_def)
  moreover have "File_size f w = Inr (objsize fil)"
    using fil by (simp add: File_size_def andThen_def)
  ultimately show ?thesis using False by (intro exI [of _ False] exI [of _ w]) simp
qed

theorem File_seek_iff_witness:
  "seek_after_open ramdrv ''/d.bin'' 1 3 (boot [(''/d.bin'', Reg [1, 2, 3])]) =
     Inr (3, True, 3, [Call_open ''/d.bin'' 1 FR_OK, Call_lseek 3 FR_OK]) \<and>
   seek_after_open ramdrv ''/d.bin'' 1 4 (boot [(''/d.bin'', Reg [1, 2, 3])]) =
     Inr (3, False, 0, [Call_open ''/d.bin'' 1 FR_OK]) \<and>
   (\<exists>ok w'. File_seek ramdrv
        \<lparr>m_name = Some 1, m_fil = Some 2, m_dir = junk_dir (boot []), m_res = FR_OK\<rparr> 3
        ((boot [(''/d.bin'', Reg [1, 2, 3])])
           \<lparr>heap := [1 \<mapsto> Str ''/d.bin'',
                     2 \<mapsto> Fil \<lparr>fil_fs = 1, objsize = 3, fptr = 0, fil_clust = 0\<rparr>]\<rparr>) =
        Inr (ok, w') \<and> ok)"
proof -
  let ?f = "\<lparr>m_name = Some 1, m_fil = Some 2, m_dir = junk_dir (boot []), m_res = FR_OK\<rparr>"
  let ?fil = "\<lparr>fil_fs = 1, objsize = 3, fptr = 0, fil_clust = 0\<rparr>"
  let ?w = "(boot [(''/d.bin'', Reg [1, 2, 3])])\<lparr>heap := [1 \<mapsto> Str ''/d.bin'', 2 \<mapsto> Fil ?fil]\<rparr>"
  have fil: "the_fil (m_fil ?f) ?w = Inr ?fil" by (simp add: the_fil_def)
  have drv: "f_lseek ramdrv ?fil 3 (vol ?w) = (FR_OK, ?fil\<lparr>fptr := 3\<rparr>, vol ?w)"
    by (simp add: ramdrv_def ram_lseek_def)
  from File_seek_iff [OF fil drv]
  have 3: "\<exists>ok w'. File_seek ramdrv ?f 3 ?w = Inr (ok, w') \<and> ok" by auto
  have 1: "seek_after_open ramdrv ''/d.bin'' 1 3 (boot [(''/d.bin'', Reg [1, 2, 3])]) =
     Inr (3, True, 3, [Call_open ''/d.bin'' 1 FR_OK, Call_lseek 3 FR_OK])"
    by code_simp
  have 2: "seek_after_open ramdrv ''/d.bin'' 1 4 (boot [(''/d.bin'', Reg [1, 2, 3])]) =
     Inr (3, False, 0, [Call_open ''/d.bin'' 1 FR_OK])"
    by code_simp
  from 1 2 3 show ?thesis by blast
qed

subsection \<open>The name of a file\<close>

text \<open>
  C10. For a \<open>File\<close> whose \<open>_name\<close> points to a live string, \<open>name()\<close> returns the
  address of the character right after the last \<open>/\<close> of the path, so that what it
  points to is the part of the path after that separator; it returns \<open>NULL\<close> when the
  path has no \<open>/\<close>.
\<close>

theorem File_name_after_last_slash:
  assumes "m_name f = Some a" and "heap w a = Some (Str s)"
  shows "(CHR ''/'' \<notin> set s \<longrightarrow> File_name f w = Inr None) \<and>
         (\<forall>pre suf. s = pre @ CHR ''/'' # suf \<and> CHR ''/'' \<notin> set suf \<longrightarrow>
            File_name f w = Inr (Some (a, Suc (length pre))) \<and>
            drop (Suc (length pre)) s = suf)"
proof (intro conjI impI allI)
  assume "CHR ''/'' \<notin> set s"
  then have "strrchr s CHR ''/'' = None" by (simp add: strrchr_None_iff)
  with assms show "File_name f w = Inr None"
    by (simp add: File_name_def the_str_def andThen_def)
next
  fix pre suf
  assume h: "s = pre @ CHR ''/'' # suf \<and> CHR ''/'' \<notin> set suf"
  then have "strrchr s CHR ''/'' = Some (length pre)" by (simp add: strrchr_last)
  moreover have "s ! length pre = CHR ''/''" using h by simp
  ultimately show "File_name f w = Inr (Some (a, Suc (length pre)))"
    using assms by (simp add: File_name_def the_str_def andThen_def)
  show "drop (Suc (length pre)) s = suf" using h by simp
qed

theorem File_name_after_last_slash_witness:
  "File_name \<lparr>m_name = Some 1, m_fil = None, m_dir = junk_dir (boot []), m_res = FR_OK\<rparr>
     ((boot [])\<lparr>heap := [1 \<mapsto> Str ''/dir/a.txt'']\<rparr>) = Inr (Some (1, 5)) \<and>
   drop 5 ''/dir/a.txt'' = ''a.txt'' \<and>
   File_name \<lparr>m_name = Some 1, m_fil = None, m_dir = junk_dir (boot []), m_res = FR_OK\<rparr>
     ((boot [])\<lparr>heap := [1 \<mapsto> Str ''a.txt'']\<rparr>) = Inr None"
proof -
  let ?f = "\<lparr>m_name = Some 1, m_fil = None, m_dir = junk_dir (boot []), m_res = FR_OK\<rparr>"
  have n: "m_name ?f = Some 1" by simp
  have h1: "heap ((boot [])\<lparr>heap := [1 \<mapsto> Str ''/dir/a.txt'']\<rparr>) 1 = Some (Str ''/dir/a.txt'')"
    by simp
  have h2: "heap ((boot [])\<lparr>heap := [1 \<mapsto> Str ''a.txt'']\<rparr>) 1 = Some (Str ''a.txt'')"
    by simp
  have split: "''/dir/a.txt'' = ''/dir'' @ CHR ''/'' # ''a.txt'' \<and> CHR ''/'' \<notin> set ''a.txt''"
    by simp
  have no: "CHR ''/'' \<notin> set ''a.txt''" by simp
  from File_name_after_last_slash [OF n h1] split
  have "File_name ?f ((boot [])\<lparr>heap := [1 \<mapsto> Str ''/dir/a.txt'']\<rparr>) = Inr (Some (1, Suc (length ''/dir''))) \<and>
        drop (Suc (length ''/dir'')) ''/dir/a.txt'' = ''a.txt''"
    by blast
  moreover from File_name_after_last_slash [OF n h2] no
  have "File_name ?f ((boot [])\<lparr>heap := [1 \<mapsto> Str ''a.txt'']\<rparr>) = Inr None" by blast
  ultimately show ?thesis by simp
qed

subsection \<open>Closing\<close>

text \<open>
  C6. \<open>close()\<close> on a \<open>File\<close> whose \<open>_name\<close> is null returns at once and changes
  nothing. For a \<open>File\<close> that owns its blocks (and has no \<open>_fil\<close> without a \<open>_name\<close>, as
  every \<open>File\<close> the interface hands out), the first \<open>close()\<close> returns, leaves \<open>_name\<close>
  and \<open>_fil\<close> null and has given back exactly these two blocks; a second \<open>close()\<close>
  right after it returns as well and leaves the \<open>File\<close> and the world as they are:
  no error, and nothing is given back twice.
\<close>

theorem File_close_idempotent:
  fixes e :: "'v ext"
  assumes own: "owned f w" and inv: "m_name f = None \<longrightarrow> m_fil f = None"
  shows "\<exists>f1 w1. File_close e f w = Inr (f1, w1) \<and> m_name f1 = None \<and> m_fil f1 = None \<and>
           File_close e f1 w1 = Inr (f1, w1) \<and>
           (if m_name f = None then f1 = f \<and> w1 = w
            else heap w1 = (\<lambda>x. if Some x = m_name f \<or> Some x = m_fil f then None
                                 else heap w x))"
proof (cases "m_name f")
  case None
  with inv have "m_fil f = None" by simp
  with None File_close_null [of f e w] show ?thesis by auto
next
  case (Some a)
  with own obtain s where str: "heap w a = Some (Str s)"
    by (auto simp: owned_def split: option.splits obj.splits)
  from own have fl: "m_fil f = None \<or> (\<exists>b fil. m_fil f = Some b \<and> heap w b = Some (Fil fil))"
    by (auto simp: owned_def split: option.splits obj.splits)
  from File_close_owned [OF Some str fl, of e] obtain d w1 where
    c: "File_close e f w = Inr (f\<lparr>m_name := None, m_fil := None, m_dir := d\<rparr>, w1)" and
    h: "heap w1 = (\<lambda>x. if Some x = m_name f \<or> Some x = m_fil f then None else heap w x)"
    by blast
  have "File_close e (f\<lparr>m_name := None, m_fil := None, m_dir := d\<rparr>) w1 =
          Inr (f\<lparr>m_name := None, m_fil := None, m_dir := d\<rparr>, w1)"
    by (rule File_close_null) simp
  with c h Some show ?thesis by simp
qed

theorem File_close_idempotent_witness:
  "\<exists>f1 w1.
     andThen (SDClass_open ramdrv ''/f.txt'' 1 (boot [(''/f.txt'', Reg [])]))
       (\<lambda>(f, w). File_close ramdrv f w) = Inr (f1, w1) \<and>
     File_close ramdrv f1 w1 = Inr (f1, w1) \<and> m_name f1 = None \<and> m_fil f1 = None \<and>
     heap w1 = Map.empty"
proof -
  let ?X = "SDClass_open ramdrv ''/f.txt'' 1 (boot [(''/f.txt'', Reg [])])"
  let ?f = "fst (projr ?X)" and ?w = "snd (projr ?X)"
  have "\<not> isl ?X" by code_simp
  then have run: "?X = Inr (?f, ?w)" by (cases ?X) simp_all
  have own: "owned ?f ?w" by code_simp
  have nm: "m_name ?f = Some 1" and fl: "m_fil ?f = Some 2" by code_simp+
  have inv: "m_name ?f = None \<longrightarrow> m_fil ?f = None" using nm by simp
  have h: "\<forall>x. x \<noteq> 1 \<and> x \<noteq> 2 \<longrightarrow> heap ?w x = None"
    using SDClass_open_Inr [OF run] by (auto simp: boot_def split: if_splits)
  from File_close_idempotent [OF own inv, of ramdrv] obtain f1 w1 where
    c: "File_close ramdrv ?f ?w = Inr (f1, w1)" and n: "m_name f1 = None" "m_fil f1 = None"
    and again: "File_close ramdrv f1 w1 = Inr (f1, w1)"
    and hp: "heap w1 = (\<lambda>x. if Some x = m_name ?f \<or> Some x = m_fil ?f then None else heap ?w x)"
    using nm by auto
  from hp nm fl h have "heap w1 = Map.empty" by (auto simp: fun_eq_iff)
  moreover have "andThen ?X (\<lambda>(f, w). File_close ramdrv f w) = Inr (f1, w1)"
    by (subst run) (simp add: andThen_def c case_prod_beta)
  ultimately show ?thesis using n again by blast
qed

subsection \<open>One resource at a time\<close>

text \<open>
  C7. A \<open>File\<close> that comes from the constructor, from \<open>open\<close>, \<open>openRoot\<close> or
  \<open>openNextFile\<close>, or from \<open>close\<close> applied to such a \<open>File\<close>, never has both its file
  resource (\<open>_fil\<close> non-null) and its directory resource (\<open>_dir.obj.fs\<close> non-zero)
  bound.
\<close>

theorem produced_at_most_one_bound:
  assumes "produced e f"
  shows "\<not> (m_fil f \<noteq> None \<and> dir_fs (m_dir f) \<noteq> 0)"
proof -
  from produced_shape [OF assms] have "m_fil f = None \<or> dir_fs (m_dir f) = 0" by (rule conjunct1)
  then show ?thesis by auto
qed

theorem produced_at_most_one_bound_witness:
  "m_fil (fst (projr (SDClass_open ramdrv ''/f.txt'' 1 (boot [(''/f.txt'', Reg [])])))) \<noteq> None \<and>
   dir_fs (m_dir (fst (projr (SDClass_open ramdrv ''/f.txt'' 1 (boot [(''/f.txt'', Reg [])]))))) = 0 \<and>
   dir_fs (m_dir (fst (projr (SDClass_openRoot ramdrv 1 (boot [(''/f.txt'', Reg [])]))))) \<noteq> 0 \<and>
   m_fil (fst (projr (SDClass_openRoot ramdrv 1 (boot [(''/f.txt'', Reg [])])))) = None"
proof -
  let ?X = "SDClass_open ramdrv ''/f.txt'' 1 (boot [(''/f.txt'', Reg [])])"
  let ?Y = "SDClass_openRoot ramdrv 1 (boot [(''/f.txt'', Reg [])])"
  have "\<not> isl ?X" by code_simp
  then have runX: "?X = Inr (fst (projr ?X), snd (projr ?X))" by (cases ?X) simp_all
  have "\<not> isl ?Y" by code_simp
  then have runY: "?Y = Inr (fst (projr ?Y), snd (projr ?Y))" by (cases ?Y) simp_all
  have fX: "m_fil (fst (projr ?X)) \<noteq> None" by code_simp
  have dY: "dir_fs (m_dir (fst (projr ?Y))) \<noteq> 0" by code_simp
  from produced_at_most_one_bound [OF by_open [OF runX]] fX
  have "dir_fs (m_dir (fst (projr ?X))) = 0" by blast
  moreover from produced_at_most_one_bound [OF by_openRoot [OF runY]] dY
  have "m_fil (fst (projr ?Y)) = None" by blast
  ultimately show ?thesis using fX dY by blast
qed

subsection \<open>The next entry of a directory\<close>

text \<open>
  C5. Let the driver report \<open>n\<close> names that start with a dot and then either the end
  of the directory (an error, or an empty name) or a name for which the allocation of
  the child path fails. Then \<open>openNextFile(mode)\<close> returns; the \<open>File\<close> it returns
  converts to false and has \<open>_name\<close> and \<open>_fil\<close> null; its stored result is the
  driver's in the first case and \<open>FR_NOT_ENOUGH_CORE\<close> in the second, where the call
  returns normally and does not end in \<open>Error_Handler\<close>. The heap is as before.
\<close>

theorem File_openNextFile_invalid:
  fixes e :: "'v ext"
  assumes skip: "dots e n (m_dir dirf) (vol w) = Some (d, v)"
    and rd: "f_readdir e d v = (res, fno, d', v')"
    and stop: "res \<noteq> FR_OK \<or> fname fno = [] \<or>
               (hd (fname fno) \<noteq> CHR ''.'' \<and> oom w \<noteq> [] \<and> hd (oom w) \<and>
                \<not> isl (the_str (m_name dirf) w))"
  shows "\<exists>h w'. File_openNextFile e dirf mode w = Some (Inr (h, dirf\<lparr>m_dir := d'\<rparr>, w')) \<and>
           File_bool h w' = Inr False \<and> m_name h = None \<and> m_fil h = None \<and>
           m_res h = (if res \<noteq> FR_OK \<or> fname fno = [] then res else FR_NOT_ENOUGH_CORE) \<and>
           vol w' = v' \<and> heap w' = heap w"
proof -
  let ?filtmp = "File_ctor FR_OK w"
  from openNextFile_loop_dots [OF skip, of mode ?filtmp] obtain w1 where
    go: "openNextFile_loop e mode ?filtmp dirf w =
           openNextFile_loop e mode ?filtmp (dirf\<lparr>m_dir := d\<rparr>) w1"
    and w1: "vol w1 = v" "heap w1 = heap w" "oom w1 = oom w"
    by blast
  let ?dirf1 = "dirf\<lparr>m_dir := d\<rparr>"
  from rd w1 have rd1: "f_readdir e (m_dir ?dirf1) (vol w1) = (res, fno, d', v')" by simp
  have bool: "\<And>r w'. File_bool (?filtmp\<lparr>m_res := r\<rparr>) w' = Inr False"
    by (simp add: File_bool_def File_ctor_def)
  show ?thesis
  proof (cases "res \<noteq> FR_OK \<or> fname fno = []")
    case True
    let ?w' = "logged (Call_readdir res (fname fno)) v' w1"
    from turn_end [OF rd1 True]
    have "openNextFile_loop e mode ?filtmp ?dirf1 w1 =
            Some (Inr (?filtmp\<lparr>m_res := res\<rparr>, dirf\<lparr>m_dir := d'\<rparr>, ?w'))"
      by (subst openNextFile_loop.simps) simp
    with go have "File_openNextFile e dirf mode w =
            Some (Inr (?filtmp\<lparr>m_res := res\<rparr>, dirf\<lparr>m_dir := d'\<rparr>, ?w'))"
      by (simp add: File_openNextFile_def)
    moreover have "m_name (?filtmp\<lparr>m_res := res\<rparr>) = None" "m_fil (?filtmp\<lparr>m_res := res\<rparr>) = None"
      by (simp_all add: File_ctor_def)
    ultimately show ?thesis using True bool w1
      by (intro exI [of _ "?filtmp\<lparr>m_res := res\<rparr>"] exI [of _ ?w']) simp
  next
    case False
    with stop have nd: "hd (fname fno) \<noteq> CHR ''.''" and full: "oom w1 \<noteq> [] \<and> hd (oom w1)"
      and "\<not> isl (the_str (m_name dirf) w)"
      using w1 by auto
    then obtain nm where "the_str (m_name dirf) w = Inr nm"
      by (cases "the_str (m_name dirf) w") auto
    with the_str_heap [OF w1(2), of "m_name dirf"]
    have nm: "the_str (m_name ?dirf1) w1 = Inr nm" by simp
    from False have ok: "res = FR_OK" and ne: "fname fno \<noteq> []" by simp_all
    let ?w' = "(logged (Call_readdir FR_OK (fname fno)) v' w1)\<lparr>oom := tl (oom w1)\<rparr>"
    from turn_oom [OF rd1 [unfolded ok] ne nd nm full]
    have "openNextFile_loop e mode ?filtmp ?dirf1 w1 =
            Some (Inr (?filtmp\<lparr>m_res := FR_NOT_ENOUGH_CORE\<rparr>, dirf\<lparr>m_dir := d'\<rparr>, ?w'))"
      by (subst openNextFile_loop.simps) simp
    with go have "File_openNextFile e dirf mode w =
            Some (Inr (?filtmp\<lparr>m_res := FR_NOT_ENOUGH_CORE\<rparr>, dirf\<lparr>m_dir := d'\<rparr>, ?w'))"
      by (simp add: File_openNextFile_def)
    moreover have "m_name (?filtmp\<lparr>m_res := FR_NOT_ENOUGH_CORE\<rparr>) = None"
      "m_fil (?filtmp\<lparr>m_res := FR_NOT_ENOUGH_CORE\<rparr>) = None"
      by (simp_all add: File_ctor_def)
    ultimately show ?thesis using False bool w1
      by (intro exI [of _ "?filtmp\<lparr>m_res := FR_NOT_ENOUGH_CORE\<rparr>"] exI [of _ ?w']) simp
  qed
qed


theorem File_openNextFile_invalid_witness:
  "(\<exists>h w'. File_openNextFile ramdrv
       \<lparr>m_name = Some 1, m_fil = None, m_dir = \<lparr>dir_fs = 1, dir_clust = 0, dptr = 0\<rparr>,
        m_res = FR_OK\<rparr> 1
       ((boot [(''/.x'', Reg [])])\<lparr>heap := [1 \<mapsto> Str ''/''], brk := 2\<rparr>) =
       Some (Inr (h, \<lparr>m_name = Some 1, m_fil = None,
                      m_dir = \<lparr>dir_fs = 1, dir_clust = 0, dptr = 1\<rparr>, m_res = FR_OK\<rparr>, w')) \<and>
     File_bool h w' = Inr False \<and> m_res h = FR_OK) \<and>
   (\<exists>h w'. File_openNextFile ramdrv
       \<lparr>m_name = Some 1, m_fil = None, m_dir = \<lparr>dir_fs = 1, dir_clust = 0, dptr = 0\<rparr>,
        m_res = FR_OK\<rparr> 1
       ((boot [(''/.x'', Reg []), (''/a'', Reg [1])])
          \<lparr>heap := [1 \<mapsto> Str ''/''], brk := 2, oom := [True]\<rparr>) =
       Some (Inr (h, \<lparr>m_name = Some 1, m_fil = None,
                      m_dir = \<lparr>dir_fs = 1, dir_clust = 0, dptr = 2\<rparr>, m_res = FR_OK\<rparr>, w')) \<and>
     File_bool h w' = Inr False \<and> m_res h = FR_NOT_ENOUGH_CORE)"
proof -
  let ?root = "\<lparr>m_name = Some 1, m_fil = None, m_dir = \<lparr>dir_fs = 1, dir_clust = 0, dptr = 0\<rparr>,
                 m_res = FR_OK\<rparr>"
  let ?d0 = "[(''/.x'', Reg [])] :: disk"
  let ?d1 = "[(''/.x'', Reg []), (''/a'', Reg [1])] :: disk"
  let ?w0 = "(boot ?d0)\<lparr>heap := [1 \<mapsto> Str ''/''], brk := 2\<rparr>"
  let ?w1 = "(boot ?d1)\<lparr>heap := [1 \<mapsto> Str ''/''], brk := 2, oom := [True]\<rparr>"
  let ?at1 = "\<lparr>dir_fs = 1, dir_clust = 0, dptr = 1\<rparr>"
  have skip0: "dots ramdrv 1 (m_dir ?root) (vol ?w0) = Some (?at1, ?d0)" by code_simp
  have rd0: "f_readdir ramdrv ?at1 ?d0 = (FR_OK, no_info, ?at1, ?d0)" by code_simp
  have stop0: "FR_OK \<noteq> FR_OK \<or> fname no_info = [] \<or>
               (hd (fname no_info) \<noteq> CHR ''.'' \<and> oom ?w0 \<noteq> [] \<and> hd (oom ?w0) \<and>
                \<not> isl (the_str (m_name ?root) ?w0))"
    by (simp add: no_info_def)
  have skip1: "dots ramdrv 1 (m_dir ?root) (vol ?w1) = Some (?at1, ?d1)" by code_simp
  have rd1: "f_readdir ramdrv ?at1 ?d1 =
      (FR_OK, \<lparr>fname = ''a'', fattrib = 0x20, fsize = 1\<rparr>, \<lparr>dir_fs = 1, dir_clust = 0, dptr = 2\<rparr>, ?d1)"
    by code_simp
  have stop1: "FR_OK \<noteq> FR_OK \<or> fname \<lparr>fname = ''a'', fattrib = 0x20, fsize = 1\<rparr> = [] \<or>
               (hd (fname \<lparr>fname = ''a'', fattrib = 0x20, fsize = 1\<rparr>) \<noteq> CHR ''.'' \<and>
                oom ?w1 \<noteq> [] \<and> hd (oom ?w1) \<and> \<not> isl (the_str (m_name ?root) ?w1))"
    by (simp add: the_str_def)
  from File_openNextFile_invalid [OF skip0 rd0 stop0, of 1]
  have a: "\<exists>h w'. File_openNextFile ramdrv ?root 1 ?w0 =
             Some (Inr (h, \<lparr>m_name = Some 1, m_fil = None, m_dir = ?at1, m_res = FR_OK\<rparr>, w')) \<and>
           File_bool h w' = Inr False \<and> m_res h = FR_OK"
    by (auto simp: no_info_def)
  from File_openNextFile_invalid [OF skip1 rd1 stop1, of 1]
  have b: "\<exists>h w'. File_openNextFile ramdrv ?root 1 ?w1 =
             Some (Inr (h, \<lparr>m_name = Some 1, m_fil = None,
                            m_dir = \<lparr>dir_fs = 1, dir_clust = 0, dptr = 2\<rparr>, m_res = FR_OK\<rparr>, w')) \<and>
           File_bool h w' = Inr False \<and> m_res h = FR_NOT_ENOUGH_CORE"
    by auto
  from a b show ?thesis by (rule conjI)
qed

end
